theory Spec2Isabelle
  imports Complex_Main
begin

section \<open>The inertial height engine of \<open>useIMUHeight\<close> (peak-tracking variant)\<close>

text \<open>
  The hook \<open>useIMUHeight\<close> estimates a height by integrating the vertical acceleration of a
  handheld device twice. This theory embeds the variant that freezes the gravity estimate
  during motion and reports the peak displacement. Its mutable refs and its React state
  are the fields of one record, and every callback is a function from that record to the
  updated one.

  JavaScript numbers are IEEE doubles, and the code is embedded twice. The first
  embedding covers the whole hook, callbacks and events, with numbers in \<^typ>\<open>real\<close> and
  the exact arithmetic; it serves the properties about the fields a callback changes
  and the branch it takes. The second embedding covers the per-sample update \<open>onMotion\<close>
  with numbers in the type \<open>jsnum\<close> of doubles defined below, with rounding, the
  infinities and \<open>NaN\<close>; it serves the properties about the numbers that the update
  produces. The two sample counters, which the code only resets to 0 and increments by
  1, are \<^typ>\<open>nat\<close>.
\<close>

subsection \<open>Vectors\<close>

datatype Vec3 = Vec3 (vx: real) (vy: real) (vz: real)

definition vecAdd :: "Vec3 \<Rightarrow> Vec3 \<Rightarrow> Vec3" where
  "vecAdd a b = Vec3 (vx a + vx b) (vy a + vy b) (vz a + vz b)"

definition vecScale :: "Vec3 \<Rightarrow> real \<Rightarrow> Vec3" where
  "vecScale a s = Vec3 (vx a * s) (vy a * s) (vz a * s)"

definition vecLen :: "Vec3 \<Rightarrow> real" where
  "vecLen a = sqrt (vx a * vx a + vy a * vy a + vz a * vz a)"

definition vecSub :: "Vec3 \<Rightarrow> Vec3 \<Rightarrow> Vec3" where
  "vecSub a b = Vec3 (vx a - vx b) (vy a - vy b) (vz a - vz b)"

definition vecDot :: "Vec3 \<Rightarrow> Vec3 \<Rightarrow> real" where
  "vecDot a b = vx a * vx b + vy a * vy b + vz a * vz b"

text \<open>\<open>vecLen(a) || 1\<close>: a length of 0 is falsy and is replaced by 1.\<close>

definition vecNorm :: "Vec3 \<Rightarrow> Vec3" where
  "vecNorm a = (let l = (if vecLen a = 0 then 1 else vecLen a)
                in Vec3 (vx a / l) (vy a / l) (vz a / l))"

subsection \<open>Rounding and unit conversion\<close>

text \<open>\<open>Math.round\<close> rounds to the nearest integer, a tie towards plus infinity.\<close>

definition jsRound :: "real \<Rightarrow> real" where
  "jsRound v = of_int \<lfloor>v + 1 / 2\<rfloor>"

text \<open>The remainder operator \<open>%\<close> truncates the quotient towards zero.\<close>

definition jsRem :: "real \<Rightarrow> real \<Rightarrow> real" where
  "jsRem a b = a - b * of_int (if 0 \<le> a / b then \<lfloor>a / b\<rfloor> else \<lceil>a / b\<rceil>)"

record FeetInches =
  feet :: real
  inches :: real
  cm :: real

definition toFeetInches :: "real \<Rightarrow> FeetInches" where
  "toFeetInches c =
     (let totalInches = c / 2.54
      in \<lparr> feet = of_int \<lfloor>totalInches / 12\<rfloor>,
           inches = jsRound (jsRem totalInches 12 * 10) / 10,
           cm = jsRound (c * 10) / 10 \<rparr>)"

subsection \<open>Events and state\<close>

text \<open>
  A \<open>devicemotion\<close> event: both vectors may be absent, and so may each of their
  components (\<open>ag.x ?? 0\<close>). \<open>interval\<close> is \<open>None\<close> when it is not a number. The value
  that \<open>performance.now()\<close> returns inside the callback travels with the event.
\<close>

datatype Accel = Accel (ax: "real option") (ay: "real option") (az: "real option")

datatype Rotation =
  Rotation (alpha: "real option") (beta: "real option") (gamma: "real option")

record DeviceMotionEvent =
  accelerationIncludingGravity :: "Accel option"
  rotationRate :: "Rotation option"
  interval :: "real option"
  tsNow :: real

text \<open>
  \<open>debugInfo\<close> is a formatted string in the source; the model keeps which template was
  used and the numbers put into it, not the formatting.
\<close>

datatype DebugInfo =
  DbgEmpty
  | DbgCalibrating
  | DbgCalibrated real
  | DbgMeasuring
  | DbgSample real real real
  | DbgFinal real real real

record MeasurementState =
  isCalibrating :: bool
  isMeasuring :: bool
  isComplete :: bool
  heightCm :: real
  heightFt :: real
  heightInches :: real
  confidence :: real
  debugInfo :: DebugInfo

text \<open>
  The hook's state: the React state (\<open>measurementState\<close>, \<open>error\<close>,
  \<open>permissionGranted\<close>), the refs, and the listener bookkeeping on \<open>window\<close>:
  \<open>imu_onMotion\<close> says whether \<open>window._imu_onMotion\<close> holds a handler, and
  \<open>attached\<close> counts the \<open>onMotion\<close> closures registered for \<open>devicemotion\<close>. All these
  closures run the same code on the same refs. The \<open>deviceorientation\<close> handler has an
  empty body and is left out.
\<close>

record Engine =
  measurementState :: MeasurementState
  error :: "string option"
  permissionGranted :: bool
  gravityRef :: Vec3
  lastTimestampRef :: real
  velocityRef :: real
  displacementRef :: real
  peakDisplacementRef :: real
  stationarySamplesRef :: nat
  totalSamplesRef :: nat
  hasCalibratedRef :: bool
  imu_onMotion :: bool
  attached :: nat

definition zeroReadout :: MeasurementState where
  "zeroReadout =
     \<lparr> isCalibrating = False, isMeasuring = False, isComplete = False, heightCm = 0,
       heightFt = 0, heightInches = 0, confidence = 0, debugInfo = DbgEmpty \<rparr>"

text \<open>The state of a freshly mounted hook.\<close>

definition initialEngine :: Engine where
  "initialEngine =
     \<lparr> measurementState = zeroReadout, error = None, permissionGranted = False,
       gravityRef = Vec3 0 0 9.81, lastTimestampRef = 0, velocityRef = 0,
       displacementRef = 0, peakDisplacementRef = 0, stationarySamplesRef = 0,
       totalSamplesRef = 0, hasCalibratedRef = False, imu_onMotion = False,
       attached = 0 \<rparr>"

subsection \<open>Permission and calibration\<close>

text \<open>What the platform answers to the permission requests.\<close>

datatype PermissionOutcome = Granted | MotionDenied | OrientationDenied | RequestThrew

definition requestSensorPermission :: "PermissionOutcome \<Rightarrow> Engine \<Rightarrow> Engine" where
  "requestSensorPermission po s =
     (case po of
        MotionDenied \<Rightarrow> s\<lparr>error := Some ''Motion sensor permission denied''\<rparr>
      | OrientationDenied \<Rightarrow> s\<lparr>error := Some ''Orientation sensor permission denied''\<rparr>
      | Granted \<Rightarrow> s\<lparr>permissionGranted := True, error := None\<rparr>
      | RequestThrew \<Rightarrow> s\<lparr>error := Some ''Failed to request sensor permissions''\<rparr>)"

definition orZero :: "real option \<Rightarrow> real" where
  "orZero v = (case v of None \<Rightarrow> 0 | Some r \<Rightarrow> r)"

definition gMeasOf :: "Accel \<Rightarrow> Vec3" where
  "gMeasOf a = Vec3 (orZero (ax a)) (orZero (ay a)) (orZero (az a))"

text \<open>The calibration handler: an event without acceleration pushes nothing.\<close>

fun collectSamples :: "DeviceMotionEvent list \<Rightarrow> Vec3 list" where
  "collectSamples [] = []"
| "collectSamples (e # es) =
     (case accelerationIncludingGravity e of
        None \<Rightarrow> collectSamples es
      | Some a \<Rightarrow> gMeasOf a # collectSamples es)"

subsection \<open>The per-sample update\<close>

definition lpf :: real where
  "lpf = 0.01"

definition rotMagOf :: "Rotation option \<Rightarrow> real" where
  "rotMagOf rr =
     (case rr of
        None \<Rightarrow> 0
      | Some r \<Rightarrow> sqrt ((orZero (alpha r))\<^sup>2 + (orZero (beta r))\<^sup>2 + (orZero (gamma r))\<^sup>2))"

text \<open>
  The time step: the event's interval when it is a positive number, else the time since
  the last callback, else 20 ms when there was none (a last timestamp of 0 is falsy).
\<close>

definition rawDt :: "Engine \<Rightarrow> DeviceMotionEvent \<Rightarrow> real" where
  "rawDt s e =
     (let elapsed = (if lastTimestampRef s \<noteq> 0 then (tsNow e - lastTimestampRef s) / 1000
                     else 0.02)
      in case interval e of
           None \<Rightarrow> elapsed
         | Some i \<Rightarrow> if i > 0 then i / 1000 else elapsed)"

definition clampDt :: "real \<Rightarrow> real" where
  "clampDt dt = max 0.005 (min 0.05 dt)"

definition gCandidateOf :: "Vec3 \<Rightarrow> Vec3 \<Rightarrow> Vec3" where
  "gCandidateOf gPrev gMeas = vecAdd (vecScale gPrev (1 - lpf)) (vecScale gMeas lpf)"

definition allowGUpdate :: "Vec3 \<Rightarrow> Vec3 \<Rightarrow> real \<Rightarrow> bool" where
  "allowGUpdate gPrev gMeas rotMag =
     (let aLinCandidate = vecSub gMeas (gCandidateOf gPrev gMeas);
          aLinMagCandidate = vecLen aLinCandidate
      in aLinMagCandidate < 0.2 \<and> rotMag < 3)"

definition gNewOf :: "Vec3 \<Rightarrow> Vec3 \<Rightarrow> real \<Rightarrow> Vec3" where
  "gNewOf gPrev gMeas rotMag =
     (if allowGUpdate gPrev gMeas rotMag then gCandidateOf gPrev gMeas else gPrev)"

definition aVertOf :: "Vec3 \<Rightarrow> Vec3 \<Rightarrow> real" where
  "aVertOf gMeas gNew =
     (let aLin = vecSub gMeas gNew;
          up = vecNorm (Vec3 (- vx gNew) (- vy gNew) (- vz gNew))
      in vecDot aLin up)"

definition stationaryOf :: "Vec3 \<Rightarrow> Vec3 \<Rightarrow> real \<Rightarrow> bool" where
  "stationaryOf gMeas gNew rotMag =
     (let aLinMag = vecLen (vecSub gMeas gNew)
      in \<bar>aVertOf gMeas gNew\<bar> < 0.03 \<and> rotMag < 0.7 \<and> aLinMag < 0.06)"

definition confOf :: "real \<Rightarrow> bool \<Rightarrow> real" where
  "confOf cmRounded stationary =
     (let confBase = min 95 (60 + min 35 ((cmRounded / 200) * 35))
      in if stationary then min 99.5 (confBase + 3) else confBase)"

text \<open>
  The integrator block of \<open>onMotion\<close>: the stationary counter, the velocity with its
  damping and its zero-velocity update, the displacement, the peak and the two clamps.
\<close>

definition integrate :: "bool \<Rightarrow> real \<Rightarrow> real \<Rightarrow> Engine \<Rightarrow> Engine" where
  "integrate stationary aVertCm dt s =
     (let n = (if stationary then stationarySamplesRef s + 1 else 0);
          v1 = velocityRef s + aVertCm * dt;
          v2 = (if \<not> stationary then v1 * 0.9995 else v1);
          v3 = (if real n * dt \<ge> 0.5 then 0 else v2);
          vUp = max 0 v3;
          d1 = displacementRef s + vUp * dt;
          d2 = (if d1 < 0 then 0 else d1);
          p1 = max (peakDisplacementRef s) d2;
          d3 = (if d2 > 300 then 300 else d2);
          p2 = (if p1 > 300 then 300 else p1)
      in s\<lparr> stationarySamplesRef := n,
             velocityRef := v3,
             displacementRef := d3,
             peakDisplacementRef := p2,
             totalSamplesRef := totalSamplesRef s + 1 \<rparr>)"

text \<open>The readout block of \<open>onMotion\<close>: the rounded height, its conversion, the confidence.\<close>

definition report :: "bool \<Rightarrow> real \<Rightarrow> real \<Rightarrow> Engine \<Rightarrow> Engine" where
  "report stationary aVert dt s =
     (let c = jsRound (peakDisplacementRef s * 10) / 10;
          fi = toFeetInches c;
          conf = confOf (cm fi) stationary
      in s\<lparr> measurementState := (measurementState s)
               \<lparr> heightCm := cm fi,
                 heightFt := feet fi,
                 heightInches := inches fi,
                 confidence := jsRound (conf * 10) / 10,
                 debugInfo := DbgSample aVert (velocityRef s) dt \<rparr> \<rparr>)"

text \<open>
  \<open>onMotion\<close>, in the order of the source. The timestamp is stored before the test for a
  missing acceleration; everything else happens after it.
\<close>

definition onMotion :: "DeviceMotionEvent \<Rightarrow> Engine \<Rightarrow> Engine" where
  "onMotion e s =
     (let dt0 = rawDt s e;
          s0 = s\<lparr>lastTimestampRef := tsNow e\<rparr>
      in case accelerationIncludingGravity e of
           None \<Rightarrow> s0
         | Some ag \<Rightarrow>
             (let dt = clampDt dt0;
                  gPrev = gravityRef s0;
                  gMeas = gMeasOf ag;
                  rotMag = rotMagOf (rotationRate e);
                  gNew = gNewOf gPrev gMeas rotMag;
                  s1 = s0\<lparr>gravityRef := gNew\<rparr>;
                  aVert = aVertOf gMeas gNew;
                  aVertCm = aVert * 100;
                  stationary = stationaryOf gMeas gNew rotMag
              in report stationary aVert dt (integrate stationary aVertCm dt s1)))"

text \<open>The browser calls every listener registered for \<open>devicemotion\<close>.\<close>

definition dispatchMotion :: "DeviceMotionEvent \<Rightarrow> Engine \<Rightarrow> Engine" where
  "dispatchMotion e s = (onMotion e ^^ attached s) s"

subsection \<open>The session callbacks\<close>

text \<open>
  \<open>calibrate\<close>. Its closure reads the \<open>permissionGranted\<close> of the render it was made in,
  so a call made without permission requests it and returns. Otherwise the events of
  the 1.5 s window reach the calibration handler and every attached \<open>onMotion\<close>; no
  other callback of the hook is taken to run inside the window.
\<close>

definition calibrate :: "PermissionOutcome \<Rightarrow> DeviceMotionEvent list \<Rightarrow> Engine \<Rightarrow> Engine" where
  "calibrate po evs s =
     (if \<not> permissionGranted s then requestSensorPermission po s
      else
        (let s1 = s\<lparr> error := None,
                     measurementState := (measurementState s)
                       \<lparr> isCalibrating := True, debugInfo := DbgCalibrating \<rparr> \<rparr>;
             samples = collectSamples evs;
             s2 = foldl (\<lambda>t e. dispatchMotion e t) s1 evs
         in if length samples = 0
            then s2\<lparr> error := Some ''No sensor data during calibration'',
                     measurementState := (measurementState s2)\<lparr> isCalibrating := False \<rparr> \<rparr>
            else
              (let avg = foldl vecAdd (Vec3 0 0 0) samples;
                   g = vecScale avg (1 / real (length samples))
               in s2\<lparr> gravityRef := g,
                      hasCalibratedRef := True,
                      measurementState := (measurementState s2)
                        \<lparr> isCalibrating := False, isMeasuring := False, isComplete := False,
                          heightCm := 0, heightFt := 0, heightInches := 0, confidence := 0,
                          debugInfo := DbgCalibrated (vecLen g) \<rparr> \<rparr>)))"

definition startMeasurement :: "Engine \<Rightarrow> Engine" where
  "startMeasurement s =
     (if \<not> hasCalibratedRef s then s\<lparr>error := Some ''Please calibrate first''\<rparr>
      else s\<lparr> error := None,
              displacementRef := 0,
              peakDisplacementRef := 0,
              velocityRef := 0,
              lastTimestampRef := 0,
              stationarySamplesRef := 0,
              totalSamplesRef := 0,
              measurementState := (measurementState s)
                \<lparr> isMeasuring := True, isComplete := False, debugInfo := DbgMeasuring,
                  heightCm := 0, heightFt := 0, heightInches := 0, confidence := 0 \<rparr>,
              attached := Suc (attached s),
              imu_onMotion := True \<rparr>)"

text \<open>Removing the handler kept in \<open>window._imu_onMotion\<close>, when there is one.\<close>

definition detach :: "Engine \<Rightarrow> Engine" where
  "detach s =
     (if imu_onMotion s then s\<lparr>attached := attached s - 1, imu_onMotion := False\<rparr> else s)"

definition stopMeasurement :: "Engine \<Rightarrow> Engine" where
  "stopMeasurement s =
     (let s1 = detach s;
          p = measurementState s1
      in s1\<lparr> measurementState := p
               \<lparr> isMeasuring := False, isComplete := True,
                 debugInfo := DbgFinal (heightCm p) (heightFt p) (heightInches p) \<rparr> \<rparr>)"

definition resetMeasurement :: "Engine \<Rightarrow> Engine" where
  "resetMeasurement s =
     (detach s)
       \<lparr> gravityRef := Vec3 0 0 9.81,
         lastTimestampRef := 0,
         velocityRef := 0,
         displacementRef := 0,
         peakDisplacementRef := 0,
         stationarySamplesRef := 0,
         totalSamplesRef := 0,
         hasCalibratedRef := False,
         measurementState := zeroReadout,
         error := None \<rparr>"

subsection \<open>Sessions\<close>

text \<open>
  What can happen to a mounted hook: one of its callbacks is called, or the browser
  delivers a \<open>devicemotion\<close> event.
\<close>

datatype Action =
  RequestPermission PermissionOutcome
  | Calibrate PermissionOutcome "DeviceMotionEvent list"
  | StartMeasurement
  | Motion DeviceMotionEvent
  | StopMeasurement
  | ResetMeasurement

fun step :: "Engine \<Rightarrow> Action \<Rightarrow> Engine" where
  "step s (RequestPermission po) = requestSensorPermission po s"
| "step s (Calibrate po evs) = calibrate po evs s"
| "step s StartMeasurement = startMeasurement s"
| "step s (Motion e) = dispatchMotion e s"
| "step s StopMeasurement = stopMeasurement s"
| "step s ResetMeasurement = resetMeasurement s"

definition run :: "Engine \<Rightarrow> Action list \<Rightarrow> Engine" where
  "run s acts = foldl step s acts"

text \<open>
  What \<open>onMotion\<close> computes for a sample with acceleration \<open>ag\<close> in state \<open>s\<close>: its
  time step, its gravity estimate and its stationary flag.
\<close>

definition sampleDt :: "Engine \<Rightarrow> DeviceMotionEvent \<Rightarrow> real" where
  "sampleDt s e = clampDt (rawDt s e)"

definition sampleGravity :: "Engine \<Rightarrow> Accel \<Rightarrow> DeviceMotionEvent \<Rightarrow> Vec3" where
  "sampleGravity s ag e = gNewOf (gravityRef s) (gMeasOf ag) (rotMagOf (rotationRate e))"

definition sampleStationary :: "Engine \<Rightarrow> Accel \<Rightarrow> DeviceMotionEvent \<Rightarrow> bool" where
  "sampleStationary s ag e =
     stationaryOf (gMeasOf ag) (sampleGravity s ag e) (rotMagOf (rotationRate e))"

text \<open>Feeding a list of samples to \<open>onMotion\<close> directly.\<close>

definition feed :: "Engine \<Rightarrow> DeviceMotionEvent list \<Rightarrow> Engine" where
  "feed s es = foldl (\<lambda>t e. onMotion e t) s es"

subsection \<open>Properties of states\<close>

text \<open>The bounds that the data model gives for the integrator's two outputs.\<close>

definition integratorInvariant :: "Engine \<Rightarrow> bool" where
  "integratorInvariant s \<longleftrightarrow>
     0 \<le> displacementRef s \<and> displacementRef s \<le> 300 \<and>
     0 \<le> peakDisplacementRef s \<and> peakDisplacementRef s \<le> 300 \<and>
     displacementRef s \<le> peakDisplacementRef s"

text \<open>Displacement and peak agree, inside the range.\<close>

definition settled :: "Engine \<Rightarrow> bool" where
  "settled s \<longleftrightarrow>
     0 \<le> displacementRef s \<and> displacementRef s \<le> 300 \<and>
     peakDisplacementRef s = displacementRef s"

text \<open>The integrator at rest, as \<open>startMeasurement\<close> and \<open>resetMeasurement\<close> leave it.\<close>

definition integratorZero :: "Engine \<Rightarrow> bool" where
  "integratorZero s \<longleftrightarrow>
     velocityRef s = 0 \<and> displacementRef s = 0 \<and> peakDisplacementRef s = 0 \<and>
     stationarySamplesRef s = 0"

text \<open>
  A span of samples that all carry an acceleration and that \<open>onMotion\<close> classifies as
  stationary, one after the other, starting in state \<open>s\<close>.
\<close>

fun stationarySpan :: "Engine \<Rightarrow> DeviceMotionEvent list \<Rightarrow> bool" where
  "stationarySpan s [] = True"
| "stationarySpan s (e # es) =
     (case accelerationIncludingGravity e of
        None \<Rightarrow> False
      | Some ag \<Rightarrow> sampleStationary s ag e \<and> stationarySpan (onMotion e s) es)"

subsection \<open>The spec's formulas\<close>


text \<open>
  The spec's \<open>stationaryAccumSeconds\<close> along a list of samples: a stationary sample adds
  its time step, any other sample resets the accumulator to 0.
\<close>

fun stationaryAccumSeconds :: "real \<Rightarrow> Engine \<Rightarrow> DeviceMotionEvent list \<Rightarrow> real" where
  "stationaryAccumSeconds acc s [] = acc"
| "stationaryAccumSeconds acc s (e # es) =
     (case accelerationIncludingGravity e of
        None \<Rightarrow> stationaryAccumSeconds acc (onMotion e s) es
      | Some ag \<Rightarrow>
          stationaryAccumSeconds (if sampleStationary s ag e then acc + sampleDt s e else 0)
            (onMotion e s) es)"

text \<open>The spec's confidence, a function of the peak displacement and the stationary flag.\<close>

definition specConfidence :: "real \<Rightarrow> bool \<Rightarrow> real" where
  "specConfidence peakDisplacement stationary =
     (let base = min 95 (60 + min 35 ((peakDisplacement / 200) * 35))
      in if stationary then min 99.5 (base + 3) else base)"

subsection \<open>Example inputs\<close>

text \<open>
  A sample whose acceleration lies along the device's z axis, without rotation rate,
  and a session on a flat device: permission, one calibration sample, measurement started.
\<close>

definition zSample :: "real \<Rightarrow> real option \<Rightarrow> real \<Rightarrow> DeviceMotionEvent" where
  "zSample a iv now =
     \<lparr> accelerationIncludingGravity = Some (Accel (Some 0) (Some 0) (Some a)),
       rotationRate = None, interval = iv, tsNow = now \<rparr>"

definition measuringEngine :: Engine where
  "measuringEngine =
     run initialEngine
       [RequestPermission Granted, Calibrate Granted [zSample 9.81 (Some 20) 0],
        StartMeasurement]"

text \<open>
  Ten flat samples of 50 ms each, then a sample of 5 ms that is 0.02 below gravity; and
  the flat session after one sample that arrived at 1000 ms without an interval.
\<close>

definition driftingSpan :: "DeviceMotionEvent list" where
  "driftingSpan =
     replicate 10 (zSample (981 / 100) (Some 50) 0) @ [zSample (979 / 100) (Some 5) 0]"


subsection \<open>Doubles\<close>

text \<open>
  A double is a finite real, one of the two infinities, or \<open>NaN\<close>. The sign of zero is
  left out: JavaScript tells \<open>-0\<close> from \<open>0\<close> only in a division by it, and every divisor
  of the update is a non-zero constant or \<open>vecLen(a) || 1\<close>.
\<close>

datatype jsnum = Fin real | PInf | NInf | NaN

text \<open>
  Rounding to nearest, ties to even. The exponent of \<open>x\<close> is the largest \<open>e\<close> with
  \<open>2 ^ e \<le> \<bar>x\<bar>\<close> between \<open>-1022\<close>, where the subnormal numbers begin, and 1024, found by
  a search downwards from 1024. With 52 fraction bits a unit in the last place is
  \<open>2 ^ (e - 52)\<close>, and \<open>rne x\<close> is the multiple of it nearest to \<open>x\<close>. A result whose rounded
  value reaches \<open>2 ^ 1024\<close> overflows to an infinity.
\<close>

definition roundEven :: "real \<Rightarrow> int" where
  "roundEven y =
     (let f = \<lfloor>y\<rfloor>; r = y - of_int f
      in if r < 1 / 2 then f else if 1 / 2 < r then f + 1 else if even f then f else f + 1)"

fun expoFrom :: "nat \<Rightarrow> int \<Rightarrow> real \<Rightarrow> int" where
  "expoFrom 0 e x = e"
| "expoFrom (Suc n) e x = (if 2 powi e \<le> x then e else expoFrom n (e - 1) x)"

definition expo :: "real \<Rightarrow> int" where
  "expo x = expoFrom 2046 1024 \<bar>x\<bar>"

definition ulp :: "real \<Rightarrow> real" where
  "ulp x = 2 powi (expo x - 52)"

definition rne :: "real \<Rightarrow> real" where
  "rne x = (if x = 0 then 0 else of_int (roundEven (x / ulp x)) * ulp x)"

definition ofReal :: "real \<Rightarrow> jsnum" where
  "ofReal x =
     (let y = rne x
      in if 2 ^ 1024 \<le> y then PInf else if y \<le> - (2 ^ 1024) then NInf else Fin y)"

text \<open>The double \<open>j\<close> is finite and within \<open>r\<close> of the real \<open>c\<close>.\<close>

definition near :: "jsnum \<Rightarrow> real \<Rightarrow> real \<Rightarrow> bool" where
  "near j c r = (case j of Fin x \<Rightarrow> \<bar>x - c\<bar> \<le> r | _ \<Rightarrow> False)"

text \<open>
  The operators on doubles. The sum, difference, product, quotient and square root of
  finite doubles are the exact results rounded (IEEE 754 requires it of \<open>+ - * /\<close> and
  of \<open>Math.sqrt\<close>); the cases with an infinity or \<open>NaN\<close> follow the standard. A comparison
  with \<open>NaN\<close> is false, and \<open>Math.max\<close> and \<open>Math.min\<close> return \<open>NaN\<close> when an argument is
  \<open>NaN\<close>. \<open>Math.round\<close>, \<open>Math.floor\<close> and \<open>%\<close> are exact on finite doubles.
\<close>

fun jneg :: "jsnum \<Rightarrow> jsnum" where
  "jneg (Fin a) = Fin (- a)"
| "jneg PInf = NInf"
| "jneg NInf = PInf"
| "jneg NaN = NaN"

fun jadd :: "jsnum \<Rightarrow> jsnum \<Rightarrow> jsnum" where
  "jadd (Fin a) (Fin b) = ofReal (a + b)"
| "jadd NaN _ = NaN"
| "jadd _ NaN = NaN"
| "jadd PInf NInf = NaN"
| "jadd NInf PInf = NaN"
| "jadd PInf _ = PInf"
| "jadd _ PInf = PInf"
| "jadd NInf _ = NInf"
| "jadd _ NInf = NInf"

definition jsub :: "jsnum \<Rightarrow> jsnum \<Rightarrow> jsnum" where
  "jsub a b = jadd a (jneg b)"

fun jmul :: "jsnum \<Rightarrow> jsnum \<Rightarrow> jsnum" where
  "jmul (Fin a) (Fin b) = ofReal (a * b)"
| "jmul NaN _ = NaN"
| "jmul _ NaN = NaN"
| "jmul PInf (Fin b) = (if b = 0 then NaN else if 0 < b then PInf else NInf)"
| "jmul NInf (Fin b) = (if b = 0 then NaN else if 0 < b then NInf else PInf)"
| "jmul (Fin a) PInf = (if a = 0 then NaN else if 0 < a then PInf else NInf)"
| "jmul (Fin a) NInf = (if a = 0 then NaN else if 0 < a then NInf else PInf)"
| "jmul PInf PInf = PInf"
| "jmul NInf NInf = PInf"
| "jmul PInf NInf = NInf"
| "jmul NInf PInf = NInf"

fun jdiv :: "jsnum \<Rightarrow> jsnum \<Rightarrow> jsnum" where
  "jdiv (Fin a) (Fin b) =
     (if b = 0 then (if a = 0 then NaN else if 0 < a then PInf else NInf)
      else ofReal (a / b))"
| "jdiv NaN _ = NaN"
| "jdiv _ NaN = NaN"
| "jdiv (Fin a) _ = Fin 0"
| "jdiv PInf (Fin b) = (if 0 \<le> b then PInf else NInf)"
| "jdiv NInf (Fin b) = (if 0 \<le> b then NInf else PInf)"
| "jdiv PInf PInf = NaN"
| "jdiv PInf NInf = NaN"
| "jdiv NInf PInf = NaN"
| "jdiv NInf NInf = NaN"

fun jsqrt :: "jsnum \<Rightarrow> jsnum" where
  "jsqrt (Fin a) = (if a < 0 then NaN else ofReal (sqrt a))"
| "jsqrt PInf = PInf"
| "jsqrt NInf = NaN"
| "jsqrt NaN = NaN"

fun jlt :: "jsnum \<Rightarrow> jsnum \<Rightarrow> bool" where
  "jlt (Fin a) (Fin b) = (a < b)"
| "jlt NaN _ = False"
| "jlt _ NaN = False"
| "jlt PInf _ = False"
| "jlt _ PInf = True"
| "jlt _ NInf = False"
| "jlt NInf _ = True"

fun jle :: "jsnum \<Rightarrow> jsnum \<Rightarrow> bool" where
  "jle (Fin a) (Fin b) = (a \<le> b)"
| "jle NaN _ = False"
| "jle _ NaN = False"
| "jle _ PInf = True"
| "jle PInf _ = False"
| "jle NInf _ = True"
| "jle _ NInf = False"

fun jeq :: "jsnum \<Rightarrow> jsnum \<Rightarrow> bool" where
  "jeq NaN _ = False"
| "jeq _ NaN = False"
| "jeq a b = (a = b)"

fun jmax :: "jsnum \<Rightarrow> jsnum \<Rightarrow> jsnum" where
  "jmax NaN _ = NaN"
| "jmax _ NaN = NaN"
| "jmax a b = (if jlt a b then b else a)"

fun jmin :: "jsnum \<Rightarrow> jsnum \<Rightarrow> jsnum" where
  "jmin NaN _ = NaN"
| "jmin _ NaN = NaN"
| "jmin a b = (if jlt b a then b else a)"

fun jabs :: "jsnum \<Rightarrow> jsnum" where
  "jabs (Fin a) = Fin \<bar>a\<bar>"
| "jabs PInf = PInf"
| "jabs NInf = PInf"
| "jabs NaN = NaN"

fun jround :: "jsnum \<Rightarrow> jsnum" where
  "jround (Fin a) = Fin (of_int \<lfloor>a + 1 / 2\<rfloor>)"
| "jround j = j"

fun jfloor :: "jsnum \<Rightarrow> jsnum" where
  "jfloor (Fin a) = Fin (of_int \<lfloor>a\<rfloor>)"
| "jfloor j = j"

fun jrem :: "jsnum \<Rightarrow> jsnum \<Rightarrow> jsnum" where
  "jrem (Fin a) (Fin b) = (if b = 0 then NaN else Fin (jsRem a b))"
| "jrem NaN _ = NaN"
| "jrem _ NaN = NaN"
| "jrem (Fin a) _ = Fin a"
| "jrem PInf _ = NaN"
| "jrem NInf _ = NaN"

text \<open>
  A number is falsy when it is \<open>0\<close> or \<open>NaN\<close>. A decimal literal of the source denotes
  the double nearest to it.
\<close>

definition truthy :: "jsnum \<Rightarrow> bool" where
  "truthy j \<longleftrightarrow> j \<noteq> NaN \<and> j \<noteq> Fin 0"

definition lit :: "real \<Rightarrow> jsnum" where
  "lit d = ofReal d"

subsection \<open>The per-sample update on doubles\<close>

text \<open>
  The helpers and the stages of \<open>onMotion\<close> once more, on doubles, under the names of the
  first embedding with a \<open>D\<close> appended. The constants \<open>1\<close>, \<open>3\<close>, \<open>10\<close>, \<open>12\<close>, \<open>35\<close>, \<open>60\<close>,
  \<open>95\<close>, \<open>99.5\<close>, \<open>100\<close>, \<open>200\<close>, \<open>300\<close>, \<open>1000\<close> and \<open>0.5\<close> are doubles and are written
  as such; the other literals go through \<open>lit\<close>. The fields of an event are finite
  numbers, as in the first embedding.
\<close>

datatype DVec3 = DVec3 (dx: jsnum) (dy: jsnum) (dz: jsnum)

definition vecAddD :: "DVec3 \<Rightarrow> DVec3 \<Rightarrow> DVec3" where
  "vecAddD a b = DVec3 (jadd (dx a) (dx b)) (jadd (dy a) (dy b)) (jadd (dz a) (dz b))"

definition vecScaleD :: "DVec3 \<Rightarrow> jsnum \<Rightarrow> DVec3" where
  "vecScaleD a s = DVec3 (jmul (dx a) s) (jmul (dy a) s) (jmul (dz a) s)"

definition vecLenD :: "DVec3 \<Rightarrow> jsnum" where
  "vecLenD a =
     jsqrt (jadd (jadd (jmul (dx a) (dx a)) (jmul (dy a) (dy a))) (jmul (dz a) (dz a)))"

definition vecSubD :: "DVec3 \<Rightarrow> DVec3 \<Rightarrow> DVec3" where
  "vecSubD a b = DVec3 (jsub (dx a) (dx b)) (jsub (dy a) (dy b)) (jsub (dz a) (dz b))"

definition vecDotD :: "DVec3 \<Rightarrow> DVec3 \<Rightarrow> jsnum" where
  "vecDotD a b =
     jadd (jadd (jmul (dx a) (dx b)) (jmul (dy a) (dy b))) (jmul (dz a) (dz b))"

definition vecNormD :: "DVec3 \<Rightarrow> DVec3" where
  "vecNormD a =
     (let l = (if truthy (vecLenD a) then vecLenD a else Fin 1)
      in DVec3 (jdiv (dx a) l) (jdiv (dy a) l) (jdiv (dz a) l))"

record FeetInchesD =
  feetD :: jsnum
  inchesD :: jsnum
  cmD :: jsnum

definition toFeetInchesD :: "jsnum \<Rightarrow> FeetInchesD" where
  "toFeetInchesD c =
     (let totalInches = jdiv c (lit 2.54)
      in \<lparr> feetD = jfloor (jdiv totalInches (Fin 12)),
           inchesD = jdiv (jround (jmul (jrem totalInches (Fin 12)) (Fin 10))) (Fin 10),
           cmD = jdiv (jround (jmul c (Fin 10))) (Fin 10) \<rparr>)"

text \<open>The refs that \<open>onMotion\<close> reads and writes, and the numbers it publishes.\<close>

record Doubles =
  gravityD :: DVec3
  lastTimestampD :: jsnum
  velocityD :: jsnum
  displacementD :: jsnum
  peakDisplacementD :: jsnum
  stationarySamplesD :: nat
  totalSamplesD :: nat
  heightCmD :: jsnum
  heightFtD :: jsnum
  heightInchesD :: jsnum
  confidenceD :: jsnum

definition gMeasD :: "Accel \<Rightarrow> DVec3" where
  "gMeasD a = DVec3 (Fin (orZero (ax a))) (Fin (orZero (ay a))) (Fin (orZero (az a)))"

definition lpfD :: jsnum where
  "lpfD = lit 0.01"

definition rotMagD :: "Rotation option \<Rightarrow> jsnum" where
  "rotMagD rr =
     (case rr of
        None \<Rightarrow> Fin 0
      | Some r \<Rightarrow>
          jsqrt (jadd (jadd (jmul (Fin (orZero (alpha r))) (Fin (orZero (alpha r))))
                            (jmul (Fin (orZero (beta r))) (Fin (orZero (beta r)))))
                      (jmul (Fin (orZero (gamma r))) (Fin (orZero (gamma r))))))"

definition rawDtD :: "Doubles \<Rightarrow> DeviceMotionEvent \<Rightarrow> jsnum" where
  "rawDtD s e =
     (let elapsed = (if truthy (lastTimestampD s)
                     then jdiv (jsub (Fin (tsNow e)) (lastTimestampD s)) (Fin 1000)
                     else lit 0.02)
      in case interval e of
           None \<Rightarrow> elapsed
         | Some i \<Rightarrow> if i > 0 then jdiv (Fin i) (Fin 1000) else elapsed)"

definition clampDtD :: "jsnum \<Rightarrow> jsnum" where
  "clampDtD dt = jmax (lit 0.005) (jmin (lit 0.05) dt)"

definition gCandidateD :: "DVec3 \<Rightarrow> DVec3 \<Rightarrow> DVec3" where
  "gCandidateD gPrev gMeas =
     vecAddD (vecScaleD gPrev (jsub (Fin 1) lpfD)) (vecScaleD gMeas lpfD)"

definition allowGUpdateD :: "DVec3 \<Rightarrow> DVec3 \<Rightarrow> jsnum \<Rightarrow> bool" where
  "allowGUpdateD gPrev gMeas rotMag =
     (let aLinCandidate = vecSubD gMeas (gCandidateD gPrev gMeas);
          aLinMagCandidate = vecLenD aLinCandidate
      in jlt aLinMagCandidate (lit 0.2) \<and> jlt rotMag (Fin 3))"

definition gNewD :: "DVec3 \<Rightarrow> DVec3 \<Rightarrow> jsnum \<Rightarrow> DVec3" where
  "gNewD gPrev gMeas rotMag =
     (if allowGUpdateD gPrev gMeas rotMag then gCandidateD gPrev gMeas else gPrev)"

definition aVertD :: "DVec3 \<Rightarrow> DVec3 \<Rightarrow> jsnum" where
  "aVertD gMeas gNew =
     (let aLin = vecSubD gMeas gNew;
          up = vecNormD (DVec3 (jneg (dx gNew)) (jneg (dy gNew)) (jneg (dz gNew)))
      in vecDotD aLin up)"

definition stationaryD :: "DVec3 \<Rightarrow> DVec3 \<Rightarrow> jsnum \<Rightarrow> bool" where
  "stationaryD gMeas gNew rotMag =
     (let aLinMag = vecLenD (vecSubD gMeas gNew)
      in jlt (jabs (aVertD gMeas gNew)) (lit 0.03) \<and> jlt rotMag (lit 0.7)
         \<and> jlt aLinMag (lit 0.06))"

definition integrateD :: "bool \<Rightarrow> jsnum \<Rightarrow> jsnum \<Rightarrow> Doubles \<Rightarrow> Doubles" where
  "integrateD stationary aVertCm dt s =
     (let n = (if stationary then stationarySamplesD s + 1 else 0);
          v1 = jadd (velocityD s) (jmul aVertCm dt);
          v2 = (if \<not> stationary then jmul v1 (lit 0.9995) else v1);
          v3 = (if jle (Fin (1 / 2)) (jmul (Fin (real n)) dt) then Fin 0 else v2);
          vUp = jmax (Fin 0) v3;
          d1 = jadd (displacementD s) (jmul vUp dt);
          d2 = (if jlt d1 (Fin 0) then Fin 0 else d1);
          p1 = jmax (peakDisplacementD s) d2;
          d3 = (if jlt (Fin 300) d2 then Fin 300 else d2);
          p2 = (if jlt (Fin 300) p1 then Fin 300 else p1)
      in s\<lparr> stationarySamplesD := n,
             velocityD := v3,
             displacementD := d3,
             peakDisplacementD := p2,
             totalSamplesD := totalSamplesD s + 1 \<rparr>)"

definition confD :: "jsnum \<Rightarrow> bool \<Rightarrow> jsnum" where
  "confD cmRounded stationary =
     (let confBase = jmin (Fin 95)
                       (jadd (Fin 60) (jmin (Fin 35) (jmul (jdiv cmRounded (Fin 200)) (Fin 35))))
      in if stationary then jmin (Fin (199 / 2)) (jadd confBase (Fin 3)) else confBase)"

definition reportD :: "bool \<Rightarrow> Doubles \<Rightarrow> Doubles" where
  "reportD stationary s =
     (let c = jdiv (jround (jmul (peakDisplacementD s) (Fin 10))) (Fin 10);
          fi = toFeetInchesD c;
          conf = confD (cmD fi) stationary
      in s\<lparr> heightCmD := cmD fi,
             heightFtD := feetD fi,
             heightInchesD := inchesD fi,
             confidenceD := jdiv (jround (jmul conf (Fin 10))) (Fin 10) \<rparr>)"

definition onMotionD :: "DeviceMotionEvent \<Rightarrow> Doubles \<Rightarrow> Doubles" where
  "onMotionD e s =
     (let dt0 = rawDtD s e;
          s0 = s\<lparr>lastTimestampD := Fin (tsNow e)\<rparr>
      in case accelerationIncludingGravity e of
           None \<Rightarrow> s0
         | Some ag \<Rightarrow>
             (let dt = clampDtD dt0;
                  gPrev = gravityD s0;
                  gMeas = gMeasD ag;
                  rotMag = rotMagD (rotationRate e);
                  gNew = gNewD gPrev gMeas rotMag;
                  s1 = s0\<lparr>gravityD := gNew\<rparr>;
                  aVert = aVertD gMeas gNew;
                  aVertCm = jmul aVert (Fin 100);
                  stationary = stationaryD gMeas gNew rotMag
              in reportD stationary (integrateD stationary aVertCm dt s1)))"

definition feedD :: "Doubles \<Rightarrow> DeviceMotionEvent list \<Rightarrow> Doubles" where
  "feedD s es = foldl (\<lambda>t e. onMotionD e t) s es"

text \<open>The gravity estimate and the stationary flag that \<open>onMotion\<close> computes for a sample.\<close>

definition sampleGravityD :: "Doubles \<Rightarrow> Accel \<Rightarrow> DeviceMotionEvent \<Rightarrow> DVec3" where
  "sampleGravityD s ag e = gNewD (gravityD s) (gMeasD ag) (rotMagD (rotationRate e))"

definition sampleStationaryD :: "Doubles \<Rightarrow> Accel \<Rightarrow> DeviceMotionEvent \<Rightarrow> bool" where
  "sampleStationaryD s ag e =
     stationaryD (gMeasD ag) (sampleGravityD s ag e) (rotMagD (rotationRate e))"

subsection \<open>Example inputs on doubles\<close>

text \<open>
  The refs as \<open>startMeasurement\<close> leaves them after a calibration on a flat device, whose
  one sample had \<open>9.81\<close> along z.
\<close>

definition measuringD :: Doubles where
  "measuringD =
     \<lparr> gravityD = DVec3 (Fin 0) (Fin 0) (lit 9.81), lastTimestampD = Fin 0,
       velocityD = Fin 0, displacementD = Fin 0, peakDisplacementD = Fin 0,
       stationarySamplesD = 0, totalSamplesD = 0, heightCmD = Fin 0, heightFtD = Fin 0,
       heightInchesD = Fin 0, confidenceD = Fin 0 \<rparr>"

text \<open>
  The finite double \<open>2 ^ 1020\<close>, about \<open>1.1e307\<close>, and two samples of 50 ms along z: the
  first of minus that acceleration, the second of plus that acceleration.
\<close>

definition hugeAccel :: real where
  "hugeAccel = 2 ^ 1020"

definition overflowRun :: "DeviceMotionEvent list" where
  "overflowRun = [zSample (- hugeAccel) (Some 50) 0, zSample hugeAccel (Some 50) 0]"

text \<open>A sample of 50 ms with \<open>8.8125\<close> along z, a double: the device is pushed upwards.\<close>

definition pushSample :: DeviceMotionEvent where
  "pushSample = zSample (141 / 16) (Some 50) 0"

section \<open>Basic facts\<close>

lemma clampDt_bounds: "0.005 \<le> clampDt d \<and> clampDt d \<le> 0.05"
  by (simp add: clampDt_def)

lemma sampleDt_pos: "0 \<le> sampleDt s e"
  using clampDt_bounds [of "rawDt s e"] by (simp add: sampleDt_def)

lemma onMotion_no_accel:
  "accelerationIncludingGravity e = None \<Longrightarrow> onMotion e s = s\<lparr>lastTimestampRef := tsNow e\<rparr>"
  by (simp add: onMotion_def Let_def)

lemma onMotion_accel:
  "accelerationIncludingGravity e = Some ag \<Longrightarrow>
   onMotion e s =
     report (sampleStationary s ag e) (aVertOf (gMeasOf ag) (sampleGravity s ag e)) (sampleDt s e)
       (integrate (sampleStationary s ag e) (aVertOf (gMeasOf ag) (sampleGravity s ag e) * 100)
          (sampleDt s e)
          (s\<lparr>lastTimestampRef := tsNow e, gravityRef := sampleGravity s ag e\<rparr>))"
  by (simp add: onMotion_def Let_def sampleStationary_def sampleGravity_def sampleDt_def)

lemma report_frame:
  "gravityRef (report st a dt s) = gravityRef s"
  "lastTimestampRef (report st a dt s) = lastTimestampRef s"
  "velocityRef (report st a dt s) = velocityRef s"
  "displacementRef (report st a dt s) = displacementRef s"
  "peakDisplacementRef (report st a dt s) = peakDisplacementRef s"
  "stationarySamplesRef (report st a dt s) = stationarySamplesRef s"
  "totalSamplesRef (report st a dt s) = totalSamplesRef s"
  "hasCalibratedRef (report st a dt s) = hasCalibratedRef s"
  "attached (report st a dt s) = attached s"
  "imu_onMotion (report st a dt s) = imu_onMotion s"
  "permissionGranted (report st a dt s) = permissionGranted s"
  "error (report st a dt s) = error s"
  by (simp_all add: report_def Let_def)

lemma integrate_frame:
  "gravityRef (integrate st a dt s) = gravityRef s"
  "lastTimestampRef (integrate st a dt s) = lastTimestampRef s"
  "measurementState (integrate st a dt s) = measurementState s"
  "hasCalibratedRef (integrate st a dt s) = hasCalibratedRef s"
  "attached (integrate st a dt s) = attached s"
  "imu_onMotion (integrate st a dt s) = imu_onMotion s"
  "permissionGranted (integrate st a dt s) = permissionGranted s"
  "error (integrate st a dt s) = error s"
  "totalSamplesRef (integrate st a dt s) = totalSamplesRef s + 1"
  "stationarySamplesRef (integrate st a dt s) = (if st then stationarySamplesRef s + 1 else 0)"
  by (simp_all add: integrate_def Let_def)

lemma integrate_velocity:
  "velocityRef (integrate st a dt s) =
     (if real (stationarySamplesRef (integrate st a dt s)) * dt \<ge> 0.5 then 0
      else if \<not> st then (velocityRef s + a * dt) * 0.9995
      else velocityRef s + a * dt)"
  by (simp add: integrate_def Let_def)

lemma integrate_displacement:
  "displacementRef (integrate st a dt s) =
     min 300 (max 0 (displacementRef s + max 0 (velocityRef (integrate st a dt s)) * dt))"
  "peakDisplacementRef (integrate st a dt s) =
     min 300 (max (peakDisplacementRef s)
       (max 0 (displacementRef s + max 0 (velocityRef (integrate st a dt s)) * dt)))"
  by (simp_all add: integrate_def Let_def min_def max_def)

lemma onMotion_frame:
  "hasCalibratedRef (onMotion e s) = hasCalibratedRef s"
  "attached (onMotion e s) = attached s"
  "imu_onMotion (onMotion e s) = imu_onMotion s"
  "permissionGranted (onMotion e s) = permissionGranted s"
  "error (onMotion e s) = error s"
  "lastTimestampRef (onMotion e s) = tsNow e"
  by (cases "accelerationIncludingGravity e";
      simp add: onMotion_no_accel onMotion_accel report_frame integrate_frame)+

lemma onMotion_gravity:
  "accelerationIncludingGravity e = Some ag \<Longrightarrow>
   gravityRef (onMotion e s) = sampleGravity s ag e"
  by (simp add: onMotion_accel report_frame integrate_frame)

lemma onMotion_count:
  "accelerationIncludingGravity e = Some ag \<Longrightarrow>
   stationarySamplesRef (onMotion e s) =
     (if sampleStationary s ag e then stationarySamplesRef s + 1 else 0)"
  "accelerationIncludingGravity e = Some ag \<Longrightarrow>
   totalSamplesRef (onMotion e s) = totalSamplesRef s + 1"
  by (simp_all add: onMotion_accel report_frame integrate_frame)

lemma onMotion_velocity:
  "accelerationIncludingGravity e = Some ag \<Longrightarrow>
   velocityRef (onMotion e s) =
     (if real (stationarySamplesRef (onMotion e s)) * sampleDt s e \<ge> 0.5 then 0
      else if \<not> sampleStationary s ag e
        then (velocityRef s + aVertOf (gMeasOf ag) (sampleGravity s ag e) * 100 * sampleDt s e)
               * 0.9995
        else velocityRef s + aVertOf (gMeasOf ag) (sampleGravity s ag e) * 100 * sampleDt s e)"
  by (simp add: onMotion_accel report_frame integrate_frame integrate_velocity
      split del: if_split cong: if_cong)

lemma onMotion_integrator:
  assumes "accelerationIncludingGravity e = Some ag"
  shows "displacementRef (onMotion e s) =
      min 300 (max 0 (displacementRef s + max 0 (velocityRef (onMotion e s)) * sampleDt s e))"
    and "peakDisplacementRef (onMotion e s) =
      min 300 (max (peakDisplacementRef s)
        (max 0 (displacementRef s + max 0 (velocityRef (onMotion e s)) * sampleDt s e)))"
  using assms by (simp_all add: onMotion_accel report_frame integrate_displacement)

lemma jsRound_of_int: "jsRound (of_int k) = of_int k"
proof -
  have "\<lfloor>(of_int k :: real) + 1 / 2\<rfloor> = k" by linarith
  then show ?thesis by (simp add: jsRound_def)
qed

lemma jsRound_idem: "jsRound (jsRound v) = jsRound v"
  unfolding jsRound_def [of v] by (rule jsRound_of_int)

lemma onMotion_readout:
  assumes "accelerationIncludingGravity e = Some ag"
  shows "heightCm (measurementState (onMotion e s))
      = jsRound (peakDisplacementRef (onMotion e s) * 10) / 10"
    and "confidence (measurementState (onMotion e s))
      = jsRound (confOf (heightCm (measurementState (onMotion e s)))
                  (sampleStationary s ag e) * 10) / 10"
  using assms
  by (simp_all add: onMotion_accel report_def Let_def toFeetInches_def jsRound_idem)

lemma upward_step: "0 \<le> max 0 v * sampleDt s e"
  using sampleDt_pos [of s e] by simp

lemma onMotion_bounds:
  assumes "accelerationIncludingGravity e = Some ag"
  shows "0 \<le> displacementRef (onMotion e s) \<and> displacementRef (onMotion e s) \<le> 300 \<and>
    0 \<le> peakDisplacementRef (onMotion e s) \<and> peakDisplacementRef (onMotion e s) \<le> 300 \<and>
    displacementRef (onMotion e s) \<le> peakDisplacementRef (onMotion e s)"
proof -
  define u where "u = max 0 (velocityRef (onMotion e s)) * sampleDt s e"
  have d: "displacementRef (onMotion e s) = min 300 (max 0 (displacementRef s + u))"
    and p: "peakDisplacementRef (onMotion e s) =
      min 300 (max (peakDisplacementRef s) (max 0 (displacementRef s + u)))"
    unfolding u_def by (rule onMotion_integrator [OF assms])+
  show ?thesis unfolding d p by linarith
qed

lemma onMotion_peak_mono:
  assumes "peakDisplacementRef s \<le> 300"
  shows "peakDisplacementRef s \<le> peakDisplacementRef (onMotion e s)"
proof (cases "accelerationIncludingGravity e")
  case None
  then show ?thesis by (simp add: onMotion_no_accel)
next
  case (Some ag)
  define u where "u = max 0 (velocityRef (onMotion e s)) * sampleDt s e"
  have p: "peakDisplacementRef (onMotion e s) =
      min 300 (max (peakDisplacementRef s) (max 0 (displacementRef s + u)))"
    unfolding u_def by (rule onMotion_integrator [OF Some])
  show ?thesis unfolding p using assms by linarith
qed

lemma onMotion_settled:
  assumes "settled s"
  shows "settled (onMotion e s) \<and> displacementRef s \<le> displacementRef (onMotion e s)"
proof (cases "accelerationIncludingGravity e")
  case None
  then show ?thesis using assms by (simp add: onMotion_no_accel settled_def)
next
  case (Some ag)
  define u where "u = max 0 (velocityRef (onMotion e s)) * sampleDt s e"
  have u: "0 \<le> u" unfolding u_def by (rule upward_step)
  have d: "displacementRef (onMotion e s) = min 300 (max 0 (displacementRef s + u))"
    and p: "peakDisplacementRef (onMotion e s) =
      min 300 (max (peakDisplacementRef s) (max 0 (displacementRef s + u)))"
    unfolding u_def by (rule onMotion_integrator [OF Some])+
  have s: "0 \<le> displacementRef s" "displacementRef s \<le> 300"
    "peakDisplacementRef s = displacementRef s"
    using assms by (simp_all add: settled_def)
  show ?thesis unfolding settled_def d p using s u by linarith
qed

lemma funpow_preserves:
  assumes "\<And>t. P t \<Longrightarrow> P (f t)" and "P s"
  shows "P ((f ^^ n) s)"
  using assms by (induction n) simp_all

lemma dispatchMotion_settled: "settled s \<Longrightarrow> settled (dispatchMotion e s)"
  unfolding dispatchMotion_def by (rule funpow_preserves) (simp_all add: onMotion_settled)

lemma window_settled:
  "settled s \<Longrightarrow> settled (foldl (\<lambda>t e. dispatchMotion e t) s evs)"
  by (induction evs arbitrary: s) (simp_all add: dispatchMotion_settled)

lemma calibrate_settled: "settled s \<Longrightarrow> settled (calibrate po evs s)"
proof -
  assume s: "settled s"
  let ?s1 = "s\<lparr> error := None,
                     measurementState := (measurementState s)
                       \<lparr> isCalibrating := True, debugInfo := DbgCalibrating \<rparr> \<rparr>"
  have "settled ?s1" using s by (simp add: settled_def)
  then have w: "settled (foldl (\<lambda>t e. dispatchMotion e t) ?s1 evs)" by (rule window_settled)
  show ?thesis
  proof (cases "permissionGranted s")
    case False
    then show ?thesis using s
      by (simp add: calibrate_def requestSensorPermission_def settled_def
          split: PermissionOutcome.splits)
  next
    case True
    then show ?thesis using w
      by (simp add: calibrate_def Let_def settled_def)
  qed
qed

lemma step_settled: "settled s \<Longrightarrow> settled (step s a)"
proof (cases a)
  case (RequestPermission po)
  assume "settled s"
  then show ?thesis using RequestPermission
    by (simp add: requestSensorPermission_def settled_def split: PermissionOutcome.splits)
next
  case (Calibrate po evs)
  assume "settled s"
  then show ?thesis using Calibrate by (simp add: calibrate_settled)
next
  case StartMeasurement
  assume "settled s"
  then show ?thesis using StartMeasurement by (simp add: startMeasurement_def settled_def)
next
  case (Motion e)
  assume "settled s"
  then show ?thesis using Motion by (simp add: dispatchMotion_settled)
next
  case StopMeasurement
  assume "settled s"
  then show ?thesis using StopMeasurement
    by (simp add: stopMeasurement_def detach_def Let_def settled_def)
next
  case ResetMeasurement
  assume "settled s"
  then show ?thesis using ResetMeasurement
    by (simp add: resetMeasurement_def detach_def settled_def)
qed

lemma run_settled: "settled s \<Longrightarrow> settled (run s acts)"
  unfolding run_def by (induction acts arbitrary: s) (simp_all add: step_settled)

lemma initial_settled: "settled initialEngine"
  by (simp add: settled_def initialEngine_def)

lemma feed_settled: "settled s \<Longrightarrow> settled (feed s es)"
  unfolding feed_def by (induction es arbitrary: s) (simp_all add: onMotion_settled)

lemma vecLen_z: "vecLen (Vec3 0 0 c) = \<bar>c\<bar>"
  by (simp add: vecLen_def)

lemma measuringEngine_fields:
  "gravityRef measuringEngine = Vec3 0 0 9.81"
  "velocityRef measuringEngine = 0"
  "displacementRef measuringEngine = 0"
  "peakDisplacementRef measuringEngine = 0"
  "stationarySamplesRef measuringEngine = 0"
  "lastTimestampRef measuringEngine = 0"
  "hasCalibratedRef measuringEngine"
  "attached measuringEngine = 1"
  by (simp_all add: measuringEngine_def run_def initialEngine_def requestSensorPermission_def
      calibrate_def startMeasurement_def dispatchMotion_def zSample_def gMeasOf_def orZero_def
      vecAdd_def vecScale_def Let_def)

lemma z_candidate:
  "vecLen (vecSub (Vec3 0 0 a) (gCandidateOf (Vec3 0 0 g) (Vec3 0 0 a))) = \<bar>a - g\<bar> * 0.99"
proof -
  have "vecSub (Vec3 0 0 a) (gCandidateOf (Vec3 0 0 g) (Vec3 0 0 a)) = Vec3 0 0 ((a - g) * 0.99)"
    by (simp add: gCandidateOf_def lpf_def vecAdd_def vecScale_def vecSub_def algebra_simps)
  moreover have "vecLen (Vec3 0 0 ((a - g) * 0.99)) = \<bar>a - g\<bar> * 0.99"
    unfolding vecLen_z abs_mult by simp
  ultimately show ?thesis by (simp only:)
qed

lemma z_gNew:
  "gNewOf (Vec3 0 0 g) (Vec3 0 0 a) 0 =
     (if \<bar>a - g\<bar> * 0.99 < 0.2 then Vec3 0 0 (g * 0.99 + a * 0.01) else Vec3 0 0 g)"
  by (simp add: gNewOf_def allowGUpdate_def z_candidate Let_def)
    (simp add: gCandidateOf_def lpf_def vecAdd_def vecScale_def)

lemma z_aVert: "0 < g \<Longrightarrow> aVertOf (Vec3 0 0 a) (Vec3 0 0 g) = g - a"
  by (simp add: aVertOf_def vecNorm_def vecSub_def vecDot_def vecLen_z Let_def)

lemma z_stationary:
  assumes "0 < g"
  shows "stationaryOf (Vec3 0 0 a) (Vec3 0 0 g) 0 \<longleftrightarrow> \<bar>g - a\<bar> < 0.03"
proof -
  have "vecLen (vecSub (Vec3 0 0 a) (Vec3 0 0 g)) = \<bar>g - a\<bar>"
    by (simp add: vecSub_def vecLen_z abs_minus_commute)
  then have "stationaryOf (Vec3 0 0 a) (Vec3 0 0 g) 0 \<longleftrightarrow> \<bar>g - a\<bar> < 0.03 \<and> \<bar>g - a\<bar> < 0.06"
    using assms by (simp only: stationaryOf_def z_aVert Let_def) simp
  then show ?thesis by linarith
qed

lemma zSample_fields:
  "accelerationIncludingGravity (zSample a iv now) = Some (Accel (Some 0) (Some 0) (Some a))"
  "rotMagOf (rotationRate (zSample a iv now)) = 0"
  "gMeasOf (Accel (Some 0) (Some 0) (Some a)) = Vec3 0 0 a"
  "tsNow (zSample a iv now) = now"
  "interval (zSample a iv now) = iv"
  by (simp_all add: zSample_def rotMagOf_def gMeasOf_def orZero_def)

lemma zSample_gravity:
  "gravityRef s = Vec3 0 0 g \<Longrightarrow>
   sampleGravity s (Accel (Some 0) (Some 0) (Some a)) (zSample a iv now) =
     (if \<bar>a - g\<bar> * 0.99 < 0.2 then Vec3 0 0 (g * 0.99 + a * 0.01) else Vec3 0 0 g)"
  by (simp only: sampleGravity_def zSample_fields z_gNew)

lemma zSample_dt:
  "0 < ms \<Longrightarrow> sampleDt s (zSample a (Some ms) now) = clampDt (ms / 1000)"
  "lastTimestampRef s \<noteq> 0 \<Longrightarrow>
   sampleDt s (zSample a None now) = clampDt ((now - lastTimestampRef s) / 1000)"
  by (simp_all add: sampleDt_def rawDt_def zSample_fields)

lemma feed_calibrated: "hasCalibratedRef (feed s es) = hasCalibratedRef s"
  unfolding feed_def by (induction es arbitrary: s) (simp_all add: onMotion_frame)

lemma stop_calibrated: "hasCalibratedRef (stopMeasurement s) = hasCalibratedRef s"
  by (simp add: stopMeasurement_def detach_def Let_def)

lemma start_resets:
  "hasCalibratedRef s \<Longrightarrow>
   integratorZero (startMeasurement s) \<and> error (startMeasurement s) = None \<and>
   isMeasuring (measurementState (startMeasurement s)) \<and> hasCalibratedRef (startMeasurement s)"
  by (simp add: startMeasurement_def integratorZero_def)








lemma feed_snoc: "feed s (es @ [e]) = onMotion e (feed s es)"
  by (simp add: feed_def)

lemma feed_Cons: "feed s (e # es) = feed (onMotion e s) es"
  by (simp add: feed_def)

lemma span_count:
  "stationarySpan s es \<Longrightarrow>
   stationarySamplesRef (feed s es) = stationarySamplesRef s + length es"
proof (induction es arbitrary: s)
  case Nil
  then show ?case by (simp add: feed_def)
next
  case (Cons e es)
  from Cons.prems obtain ag where a: "accelerationIncludingGravity e = Some ag"
    and st: "sampleStationary s ag e" and rest: "stationarySpan (onMotion e s) es"
    by (auto split: option.splits)
  have "stationarySamplesRef (onMotion e s) = stationarySamplesRef s + 1"
    using st by (simp add: onMotion_count [OF a])
  then show ?case using Cons.IH [OF rest] by (simp add: feed_Cons)
qed

lemma span_snoc:
  "stationarySpan s (es @ [e]) \<Longrightarrow>
   stationarySpan s es \<and>
   (\<exists>ag. accelerationIncludingGravity e = Some ag \<and> sampleStationary (feed s es) ag e)"
proof (induction es arbitrary: s)
  case Nil
  then show ?case by (auto simp: feed_def split: option.splits)
next
  case (Cons d es)
  from Cons.prems obtain ag where a: "accelerationIncludingGravity d = Some ag"
    and st: "sampleStationary s ag d" and rest: "stationarySpan (onMotion d s) (es @ [e])"
    by (auto split: option.splits)
  from Cons.IH [OF rest] show ?case using a st by (simp add: feed_Cons)
qed

lemma zupt_step:
  assumes "accelerationIncludingGravity e = Some ag"
    and "0.5 \<le> real (stationarySamplesRef (onMotion e s)) * sampleDt s e"
  shows "velocityRef (onMotion e s) = 0"
  using assms(2) unfolding onMotion_velocity [OF assms(1)] by simp

lemma interval_dt:
  "interval e = Some ms \<Longrightarrow> 0 < ms \<Longrightarrow> sampleDt s e = clampDt (ms / 1000)"
  by (simp add: sampleDt_def rawDt_def)

lemma zupt_span:
  assumes span: "stationarySpan s es"
    and iv: "\<forall>e\<in>set es. interval e = Some ms"
    and ms: "0 < ms"
    and long: "0.5 \<le> real (length es) * clampDt (ms / 1000)"
  shows "velocityRef (feed s es) = 0"
proof (cases es rule: rev_cases)
  case Nil
  then show ?thesis using long by simp
next
  case (snoc fs e)
  let ?t = "feed s fs"
  from span_snoc [of s fs e] span snoc obtain ag
    where fs: "stationarySpan s fs" and a: "accelerationIncludingGravity e = Some ag"
      and st: "sampleStationary ?t ag e"
    by blast
  have dt: "sampleDt ?t e = clampDt (ms / 1000)"
    using iv ms snoc by (simp add: interval_dt)
  have "stationarySamplesRef (onMotion e ?t) = stationarySamplesRef s + length es"
    using st span_count [OF fs] snoc by (simp add: onMotion_count [OF a])
  then have "real (length es) \<le> real (stationarySamplesRef (onMotion e ?t))" by simp
  moreover have "0 \<le> clampDt (ms / 1000)" using clampDt_bounds [of "ms / 1000"] by simp
  ultimately have "real (length es) * clampDt (ms / 1000)
      \<le> real (stationarySamplesRef (onMotion e ?t)) * clampDt (ms / 1000)"
    by (rule mult_right_mono)
  then have "0.5 \<le> real (stationarySamplesRef (onMotion e ?t)) * sampleDt ?t e"
    using long dt by simp
  then have "velocityRef (onMotion e ?t) = 0" by (rule zupt_step [OF a])
  then show ?thesis using snoc by (simp add: feed_snoc)
qed

lemma flat_step:
  assumes g: "gravityRef s = Vec3 0 0 g" and pos: "0 < g" and v: "velocityRef s = 0"
  shows "sampleStationary s (Accel (Some 0) (Some 0) (Some g)) (zSample g iv now)"
    and "gravityRef (onMotion (zSample g iv now) s) = Vec3 0 0 g"
    and "velocityRef (onMotion (zSample g iv now) s) = 0"
    and "stationarySamplesRef (onMotion (zSample g iv now) s) = stationarySamplesRef s + 1"
proof -
  let ?e = "zSample g iv now" and ?ag = "Accel (Some 0) (Some 0) (Some g)"
  have a: "accelerationIncludingGravity ?e = Some ?ag" by (rule zSample_fields)
  have sg: "sampleGravity s ?ag ?e = Vec3 0 0 g"
    unfolding zSample_gravity [OF g] by (simp add: algebra_simps)
  show st: "sampleStationary s ?ag ?e"
    unfolding sampleStationary_def sg zSample_fields using pos by (simp add: z_stationary)
  show "gravityRef (onMotion ?e s) = Vec3 0 0 g"
    unfolding onMotion_gravity [OF a] by (rule sg)
  have av: "aVertOf (gMeasOf ?ag) (sampleGravity s ?ag ?e) = 0"
    unfolding sg zSample_fields using pos by (simp add: z_aVert)
  show "velocityRef (onMotion ?e s) = 0"
    unfolding onMotion_velocity [OF a] av using st v by simp
  show "stationarySamplesRef (onMotion ?e s) = stationarySamplesRef s + 1"
    unfolding onMotion_count [OF a] using st by simp
qed

lemma flat_feed:
  assumes pos: "0 < g"
  shows "gravityRef s = Vec3 0 0 g \<Longrightarrow> velocityRef s = 0 \<Longrightarrow>
    gravityRef (feed s (replicate n (zSample g iv now))) = Vec3 0 0 g \<and>
    velocityRef (feed s (replicate n (zSample g iv now))) = 0 \<and>
    stationarySamplesRef (feed s (replicate n (zSample g iv now))) = stationarySamplesRef s + n \<and>
    stationarySpan s (replicate n (zSample g iv now))"
proof (induction n arbitrary: s)
  case 0
  then show ?case by (simp add: feed_def)
next
  case (Suc n)
  note f = flat_step [OF Suc.prems(1) pos Suc.prems(2), of iv now]
  from Suc.IH [OF f(2) f(3)] f(1) f(4)
  show ?case by (simp add: feed_Cons zSample_fields)
qed

lemma span_append:
  "stationarySpan s (es @ fs) \<longleftrightarrow> stationarySpan s es \<and> stationarySpan (feed s es) fs"
  by (induction es arbitrary: s) (auto simp: feed_def split: option.splits)

lemma accum_flat:
  assumes pos: "0 < g" and ms: "0 < ms"
  shows "gravityRef s = Vec3 0 0 g \<Longrightarrow> velocityRef s = 0 \<Longrightarrow>
    stationaryAccumSeconds acc s (replicate n (zSample g (Some ms) now) @ rest) =
      stationaryAccumSeconds (acc + real n * clampDt (ms / 1000))
        (feed s (replicate n (zSample g (Some ms) now))) rest"
proof (induction n arbitrary: s acc)
  case 0
  then show ?case by (simp add: feed_def)
next
  case (Suc n)
  note f = flat_step [OF Suc.prems(1) pos Suc.prems(2), of "Some ms" now]
  have dt: "sampleDt s (zSample g (Some ms) now) = clampDt (ms / 1000)"
    by (rule zSample_dt(1) [OF ms])
  show ?case
    using Suc.IH [OF f(2) f(3), of "acc + clampDt (ms / 1000)"] f(1)
    by (simp add: feed_Cons zSample_fields dt algebra_simps)
qed

lemma measuring_gravity: "gravityRef measuringEngine = Vec3 0 0 (981 / 100)"
  using measuringEngine_fields(1) by simp


lemma flat_ten:
  "gravityRef (feed measuringEngine (replicate n (zSample (981 / 100) (Some 50) 0)))
     = Vec3 0 0 (981 / 100)"
  "velocityRef (feed measuringEngine (replicate n (zSample (981 / 100) (Some 50) 0))) = 0"
  "stationarySamplesRef (feed measuringEngine (replicate n (zSample (981 / 100) (Some 50) 0))) = n"
  "stationarySpan measuringEngine (replicate n (zSample (981 / 100) (Some 50) 0))"
  using flat_feed
      [where s = measuringEngine and g = "981 / 100" and iv = "Some 50" and now = 0 and n = n,
        OF _ measuring_gravity measuringEngine_fields(2)]
  by (simp_all add: measuringEngine_fields)


lemma confOf_spec: "confOf c st = specConfidence c st"
  by (simp add: confOf_def specConfidence_def)

lemma jsRound_near: "\<bar>jsRound (v * 10) / 10 - v\<bar> \<le> 1 / 20"
proof -
  define k where "k = \<lfloor>v * 10 + 1 / 2\<rfloor>"
  have "of_int k \<le> v * 10 + 1 / 2" and "v * 10 + 1 / 2 < of_int k + 1"
    unfolding k_def by linarith+
  then have "\<bar>of_int k / 10 - v\<bar> \<le> 1 / 20" by linarith
  then show ?thesis by (simp only: jsRound_def k_def)
qed

lemma specConfidence_alt:
  "specConfidence p st =
     (if st then min (199 / 2) (min 95 (60 + min 35 (p * 7 / 40)) + 3)
      else min 95 (60 + min 35 (p * 7 / 40)))"
  by (simp add: specConfidence_def)

lemma specConfidence_lipschitz:
  assumes "\<bar>h - p\<bar> \<le> 1 / 20"
  shows "\<bar>specConfidence h st - specConfidence p st\<bar> \<le> 7 / 800"
proof (cases st)
  case True
  then show ?thesis unfolding specConfidence_alt using assms
    by (simp only: if_True; linarith?)
next
  case False
  then show ?thesis unfolding specConfidence_alt using assms
    by (simp only: if_False; linarith?)
qed

lemma jsRound_small: "0 \<le> v \<Longrightarrow> v < 0.05 \<Longrightarrow> jsRound (v * 10) = 0"
proof -
  assume "0 \<le> v" "v < 0.05"
  then have "\<lfloor>v * 10 + 1 / 2\<rfloor> = 0" by (simp add: floor_eq_iff)
  then show ?thesis by (simp add: jsRound_def)
qed

lemma specConfidence_zero: "jsRound (specConfidence 0 st * 10) / 10 \<le> 63"
  by (cases st) (simp_all add: specConfidence_def jsRound_def)

lemma settled_invariant: "settled s \<Longrightarrow> integratorInvariant s"
  by (simp add: settled_def integratorInvariant_def)

lemma reachable_settled: "settled (run initialEngine acts)"
  by (rule run_settled [OF initial_settled])


section \<open>Facts about doubles\<close>

text \<open>
  Rounding moves a number by at most half a unit in the last place, which bounds the
  error of every operation; integers below \<open>2 ^ 53\<close> are doubles.
\<close>

lemma roundEven_near: "\<bar>of_int (roundEven y) - y\<bar> \<le> 1 / 2"
proof -
  have "of_int \<lfloor>y\<rfloor> \<le> y" "y < of_int \<lfloor>y\<rfloor> + 1" by linarith+
  then show ?thesis unfolding roundEven_def Let_def by (auto simp: abs_le_iff)
qed

lemma roundEven_int: "roundEven (of_int k) = k"
  by (simp add: roundEven_def)

lemma ulp_pos: "0 < ulp x"
  by (simp add: ulp_def)

lemma rne_ulp: "\<bar>rne x - x\<bar> \<le> ulp x / 2"
proof (cases "x = 0")
  case True
  then show ?thesis using ulp_pos [of x] by (simp add: rne_def)
next
  case False
  have "rne x - x = (of_int (roundEven (x / ulp x)) - x / ulp x) * ulp x"
    using False ulp_pos [of x] by (simp add: rne_def field_simps)
  then have "\<bar>rne x - x\<bar> = \<bar>of_int (roundEven (x / ulp x)) - x / ulp x\<bar> * ulp x"
    using ulp_pos [of x] by (simp add: abs_mult)
  also have "\<dots> \<le> 1 / 2 * ulp x"
    using roundEven_near [of "x / ulp x"] ulp_pos [of x] by (intro mult_right_mono) simp_all
  finally show ?thesis by simp
qed

lemma expoFrom_range: "e - int n \<le> expoFrom n e x \<and> expoFrom n e x \<le> e"
proof (induction n arbitrary: e)
  case 0
  show ?case by simp
next
  case (Suc n)
  have "e - 1 - int n \<le> expoFrom n (e - 1) x \<and> expoFrom n (e - 1) x \<le> e - 1"
    by (rule Suc.IH)
  then show ?case by simp
qed

lemma expoFrom_lower: "e - int n < expoFrom n e x \<Longrightarrow> 2 powi expoFrom n e x \<le> x"
proof (induction n arbitrary: e)
  case 0
  then show ?case by simp
next
  case (Suc n)
  show ?case
  proof (cases "2 powi e \<le> x")
    case True
    then show ?thesis by simp
  next
    case False
    then have "e - 1 - int n < expoFrom n (e - 1) x" using Suc.prems by simp
    then have "2 powi expoFrom n (e - 1) x \<le> x" by (rule Suc.IH)
    then show ?thesis using False by simp
  qed
qed

lemma expoFrom_upper: "expoFrom n e x < e \<Longrightarrow> x < 2 powi (expoFrom n e x + 1)"
proof (induction n arbitrary: e)
  case 0
  then show ?case by simp
next
  case (Suc n)
  show ?case
  proof (cases "2 powi e \<le> x")
    case True
    then show ?thesis using Suc.prems by simp
  next
    case False
    show ?thesis
    proof (cases "expoFrom n (e - 1) x < e - 1")
      case True
      then have "x < 2 powi (expoFrom n (e - 1) x + 1)" by (rule Suc.IH)
      then show ?thesis using False by simp
    next
      case n: False
      have "expoFrom n (e - 1) x \<le> e - 1" using expoFrom_range [of "e - 1" n x] by simp
      then have "expoFrom n (e - 1) x = e - 1" using n by simp
      then show ?thesis using False by simp
    qed
  qed
qed

lemma expo_range: "- 1022 \<le> expo x" "expo x \<le> 1024"
  using expoFrom_range [of 1024 2046 "\<bar>x\<bar>"] by (simp_all add: expo_def)

lemma expo_lower: "- 1022 < expo x \<Longrightarrow> 2 powi expo x \<le> \<bar>x\<bar>"
  unfolding expo_def using expoFrom_lower [of 1024 2046 "\<bar>x\<bar>"] by simp

lemma expo_upper: "expo x < 1024 \<Longrightarrow> \<bar>x\<bar> < 2 powi (expo x + 1)"
  unfolding expo_def by (rule expoFrom_upper)

lemma ulp_le: "ulp x \<le> \<bar>x\<bar> / 2 ^ 52 + 1 / 2 ^ 1074"
proof (cases "expo x = - 1022")
  case True
  then have "ulp x = 2 powi (- 1074)" by (simp add: ulp_def)
  also have "\<dots> = 1 / 2 ^ 1074" by (simp add: power_int_minus_divide)
  finally show ?thesis by simp
next
  case False
  then have "- 1022 < expo x" using expo_range(1) [of x] by simp
  then have l: "2 powi expo x \<le> \<bar>x\<bar>" by (rule expo_lower)
  have "ulp x = 2 powi expo x / 2 powi 52"
    by (simp add: ulp_def power_int_diff)
  also have "\<dots> = 2 powi expo x / 2 ^ 52" by simp
  also have "\<dots> \<le> \<bar>x\<bar> / 2 ^ 52"
    using l by (intro divide_right_mono) simp_all
  finally show ?thesis by simp
qed

lemma rne_error: "\<bar>rne x - x\<bar> \<le> \<bar>x\<bar> / 2 ^ 53 + 1 / 2 ^ 1075"
proof (cases "x = 0")
  case True
  then show ?thesis by (simp add: rne_def)
next
  case False
  have "\<bar>rne x - x\<bar> \<le> ulp x / 2" by (rule rne_ulp)
  also have "\<dots> \<le> (\<bar>x\<bar> / 2 ^ 52 + 1 / 2 ^ 1074) / 2"
    using ulp_le [of x] by simp
  also have "\<dots> = \<bar>x\<bar> / 2 ^ 53 + 1 / 2 ^ 1075" by simp
  finally show ?thesis .
qed

lemma expo_eq:
  assumes "2 powi e \<le> \<bar>x\<bar>" and "\<bar>x\<bar> < 2 powi (e + 1)" and "- 1022 \<le> e" and "e \<le> 1024"
  shows "expo x = e"
proof (rule ccontr)
  assume ne: "expo x \<noteq> e"
  show False
  proof (cases "expo x < e")
    case True
    then have "expo x < 1024" using assms(4) by simp
    then have "\<bar>x\<bar> < 2 powi (expo x + 1)" by (rule expo_upper)
    moreover have "(2::real) powi (expo x + 1) \<le> 2 powi e"
      using True by (intro power_int_increasing) simp_all
    ultimately show False using assms(1) by linarith
  next
    case False
    then have gt: "e < expo x" using ne by simp
    then have "- 1022 < expo x" using assms(3) by simp
    then have "2 powi expo x \<le> \<bar>x\<bar>" by (rule expo_lower)
    moreover have "(2::real) powi (e + 1) \<le> 2 powi expo x"
      using gt by (intro power_int_increasing) simp_all
    ultimately show False using assms(2) by linarith
  qed
qed

lemma rne_eval:
  assumes "2 powi e \<le> \<bar>x\<bar>" and "\<bar>x\<bar> < 2 powi (e + 1)" and "- 1022 \<le> e" and "e \<le> 1024"
  shows "rne x = of_int (roundEven (x / 2 powi (e - 52))) * 2 powi (e - 52)"
proof -
  have "(0::real) < 2 powi e" by simp
  then have "0 < \<bar>x\<bar>" using assms(1) by linarith
  then have "x \<noteq> 0" by simp
  then show ?thesis by (simp add: rne_def ulp_def expo_eq [OF assms])
qed

lemma rne_int:
  assumes "\<bar>k\<bar> < 2 ^ 53"
  shows "rne (of_int k) = of_int k"
proof (cases "k = 0")
  case True
  then show ?thesis by (simp add: rne_def)
next
  case False
  define L where "L = expo (of_int k)"
  have k1: "1 \<le> \<bar>real_of_int k\<bar>" using False by (simp flip: of_int_abs)
  have k2: "\<bar>real_of_int k\<bar> < 2 ^ 53" using assms by (simp flip: of_int_abs)
  have L0: "0 \<le> L"
  proof (rule ccontr)
    assume "\<not> 0 \<le> L"
    then have neg: "L + 1 \<le> 0" by simp
    then have "expo (of_int k) < 1024" by (simp add: L_def)
    then have "\<bar>real_of_int k\<bar> < 2 powi (L + 1)" unfolding L_def by (rule expo_upper)
    moreover have "(2::real) powi (L + 1) \<le> 2 powi 0"
      using neg by (intro power_int_increasing) simp_all
    ultimately show False using k1 by simp
  qed
  have L52: "L \<le> 52"
  proof (rule ccontr)
    assume "\<not> L \<le> 52"
    then have big: "53 \<le> L" by simp
    then have "- 1022 < expo (of_int k)" by (simp add: L_def)
    then have "2 powi L \<le> \<bar>real_of_int k\<bar>" unfolding L_def by (rule expo_lower)
    moreover have "(2::real) powi 53 \<le> 2 powi L"
      using big by (intro power_int_increasing) simp_all
    ultimately show False using k2 by simp
  qed
  have e: "expo (of_int k) = L" by (simp add: L_def)
  define n where "n = nat (52 - L)"
  have "L - 52 = - int n" using L52 by (simp add: n_def)
  then have u: "ulp (of_int k) = 1 / 2 ^ n"
    by (simp add: ulp_def e power_int_minus_divide)
  have "real_of_int k / ulp (of_int k) = of_int (k * 2 ^ n)" by (simp add: u)
  then have "roundEven (real_of_int k / ulp (of_int k)) = k * 2 ^ n"
    by (simp only: roundEven_int)
  then show ?thesis using False by (simp add: rne_def u)
qed

lemma near_Fin [simp]: "near (Fin x) c r \<longleftrightarrow> \<bar>x - c\<bar> \<le> r"
  by (simp add: near_def)

lemma nearE: "near j c r \<Longrightarrow> (\<And>x. j = Fin x \<Longrightarrow> \<bar>x - c\<bar> \<le> r \<Longrightarrow> P) \<Longrightarrow> P"
  by (cases j) (simp_all add: near_def)

lemma near_weaken: "near j c r \<Longrightarrow> \<bar>c - c'\<bar> + r \<le> r' \<Longrightarrow> near j c' r'"
proof (erule nearE)
  fix x
  assume "\<bar>c - c'\<bar> + r \<le> r'" and j: "j = Fin x" and "\<bar>x - c\<bar> \<le> r"
  then have "\<bar>x - c'\<bar> \<le> r'" by linarith
  then show "near j c' r'" by (simp add: j)
qed

lemma rne_slack:
  assumes "\<bar>x\<bar> \<le> M" and "1 \<le> M"
  shows "\<bar>rne x - x\<bar> \<le> M / 2 ^ 50"
proof -
  have "\<bar>rne x - x\<bar> \<le> \<bar>x\<bar> / 2 ^ 53 + 1 / 2 ^ 1075" by (rule rne_error)
  also have "\<dots> \<le> M / 2 ^ 53 + 1 / 2 ^ 1075" using assms(1) by (simp add: divide_right_mono)
  also have "\<dots> \<le> M / 2 ^ 53 + M / 2 ^ 53" using assms(2) by (simp add: field_simps)
  also have "\<dots> \<le> M / 2 ^ 50" using assms(2) by (simp add: field_simps)
  finally show ?thesis .
qed

lemma ofReal_Fin:
  assumes "\<bar>x\<bar> \<le> M" and "1 \<le> M" and "M \<le> 2 ^ 1023"
  shows "ofReal x = Fin (rne x)"
proof -
  have e: "\<bar>rne x - x\<bar> \<le> M / 2 ^ 50" by (rule rne_slack [OF assms(1,2)])
  have "M / 2 ^ 50 \<le> M / 2" using assms(2) by (simp add: field_simps)
  then have "\<bar>rne x\<bar> \<le> M + M / 2" using e assms(1) by linarith
  moreover have "M + M / 2 < 2 ^ 1024" using assms(3) by simp
  ultimately have "\<bar>rne x\<bar> < 2 ^ 1024" by linarith
  then show ?thesis by (simp add: ofReal_def Let_def abs_less_iff not_le)
qed

lemma ofReal_near:
  assumes "\<bar>x - c\<bar> \<le> r" and "\<bar>c\<bar> + r \<le> M" and "1 \<le> M" and "M \<le> 2 ^ 1023"
  shows "near (ofReal x) c (r + M / 2 ^ 50)"
proof -
  have x: "\<bar>x\<bar> \<le> M" using assms(1,2) by linarith
  have e: "\<bar>rne x - x\<bar> \<le> M / 2 ^ 50" by (rule rne_slack [OF x assms(3)])
  have "\<bar>rne x - c\<bar> \<le> r + M / 2 ^ 50" using e assms(1) by linarith
  then show ?thesis by (simp add: ofReal_Fin [OF x assms(3,4)])
qed

lemma ofReal_PInf:
  assumes "2 ^ 1025 \<le> x"
  shows "ofReal x = PInf"
proof -
  have x: "\<bar>x\<bar> = x" "1 \<le> x" using assms by (simp_all add: order_trans [of 1 "2 ^ 1025"])
  have "\<bar>rne x - x\<bar> \<le> x / 2 ^ 50" using rne_slack [of x x] x by simp
  moreover have "x / 2 ^ 50 \<le> x / 2" using x(2) by (simp add: field_simps)
  ultimately have "x / 2 \<le> rne x" by linarith
  then have "2 ^ 1024 \<le> rne x" using assms by simp
  then show ?thesis by (simp add: ofReal_def Let_def)
qed

lemma ofReal_NInf:
  assumes "x \<le> - (2 ^ 1025)"
  shows "ofReal x = NInf"
proof -
  have x: "\<bar>x\<bar> = - x" "1 \<le> - x" using assms by simp_all
  have "\<bar>rne x - x\<bar> \<le> - x / 2 ^ 50" using rne_slack [of x "- x"] x by simp
  moreover have "- x / 2 ^ 50 \<le> - x / 2" using x(2) by (simp add: field_simps)
  ultimately have "rne x \<le> x / 2" by linarith
  then have le: "rne x \<le> - (2 ^ 1024)" using assms by simp
  then have "\<not> 2 ^ 1024 \<le> rne x" by simp
  then show ?thesis using le by (simp add: ofReal_def Let_def)
qed

lemma ofReal_int: "\<bar>k\<bar> < 2 ^ 53 \<Longrightarrow> ofReal (of_int k) = Fin (of_int k)"
proof -
  assume k: "\<bar>k\<bar> < 2 ^ 53"
  then have "\<bar>real_of_int k\<bar> < 2 ^ 53" by (simp flip: of_int_abs)
  then have "\<bar>real_of_int k\<bar> \<le> 2 ^ 53" by simp
  from ofReal_Fin [OF this] show ?thesis by (simp add: rne_int [OF k])
qed

lemma ofReal_0 [simp]: "ofReal 0 = Fin 0"
  using ofReal_int [of 0] by simp

text \<open>
  Interval bounds for the operators: when the operands are near \<open>ca\<close> and \<open>cb\<close>, the result
  is near the exact result on them, up to the rounding of the operation.
\<close>

lemma lit_near: "\<bar>d\<bar> \<le> 16 \<Longrightarrow> near (lit d) d (1 / 2 ^ 46)"
  using ofReal_near [of d d 0 16] by (simp add: lit_def)

lemma near_add:
  assumes "near a ca ra" and "near b cb rb"
    and "\<bar>ca + cb\<bar> + (ra + rb) \<le> M" and "1 \<le> M" and "M \<le> 2 ^ 1023"
  shows "near (jadd a b) (ca + cb) (ra + rb + M / 2 ^ 50)"
proof -
  from assms(1) obtain x where a: "a = Fin x" and x: "\<bar>x - ca\<bar> \<le> ra" by (rule nearE)
  from assms(2) obtain y where b: "b = Fin y" and y: "\<bar>y - cb\<bar> \<le> rb" by (rule nearE)
  have "\<bar>x + y - (ca + cb)\<bar> \<le> ra + rb" using x y by linarith
  from ofReal_near [OF this assms(3-5)] show ?thesis by (simp add: a b)
qed

lemma near_neg: "near a c r \<Longrightarrow> near (jneg a) (- c) r"
  by (erule nearE) simp

lemma near_sub:
  assumes "near a ca ra" and "near b cb rb"
    and "\<bar>ca - cb\<bar> + (ra + rb) \<le> M" and "1 \<le> M" and "M \<le> 2 ^ 1023"
  shows "near (jsub a b) (ca - cb) (ra + rb + M / 2 ^ 50)"
  using near_add [OF assms(1) near_neg [OF assms(2)], of M] assms(3-5)
  by (simp add: jsub_def)

lemma product_error:
  fixes x y :: real
  assumes "\<bar>x - cx\<bar> \<le> rx" and "\<bar>y - cy\<bar> \<le> ry"
  shows "\<bar>x * y - cx * cy\<bar> \<le> \<bar>cx\<bar> * ry + \<bar>cy\<bar> * rx + rx * ry"
proof -
  have e: "x * y - cx * cy = cx * (y - cy) + cy * (x - cx) + (x - cx) * (y - cy)"
    by (simp add: algebra_simps)
  have "\<bar>cx * (y - cy)\<bar> \<le> \<bar>cx\<bar> * ry"
    unfolding abs_mult using assms(2) by (intro mult_left_mono) simp_all
  moreover have "\<bar>cy * (x - cx)\<bar> \<le> \<bar>cy\<bar> * rx"
    unfolding abs_mult using assms(1) by (intro mult_left_mono) simp_all
  moreover have "\<bar>(x - cx) * (y - cy)\<bar> \<le> rx * ry"
    unfolding abs_mult using assms by (intro mult_mono) simp_all
  ultimately show ?thesis unfolding e by linarith
qed

lemma near_mul:
  assumes "near a ca ra" and "near b cb rb"
    and "\<bar>ca * cb\<bar> + (\<bar>ca\<bar> * rb + \<bar>cb\<bar> * ra + ra * rb) \<le> M" and "1 \<le> M" and "M \<le> 2 ^ 1023"
  shows "near (jmul a b) (ca * cb) (\<bar>ca\<bar> * rb + \<bar>cb\<bar> * ra + ra * rb + M / 2 ^ 50)"
proof -
  from assms(1) obtain x where a: "a = Fin x" and x: "\<bar>x - ca\<bar> \<le> ra" by (rule nearE)
  from assms(2) obtain y where b: "b = Fin y" and y: "\<bar>y - cb\<bar> \<le> rb" by (rule nearE)
  note product_error [OF x y]
  from ofReal_near [OF this assms(3-5)] show ?thesis by (simp add: a b)
qed

lemma near_div_const:
  assumes "near a c r" and "0 < k" and "\<bar>c / k\<bar> + r / k \<le> M" and "1 \<le> M" and "M \<le> 2 ^ 1023"
  shows "near (jdiv a (Fin k)) (c / k) (r / k + M / 2 ^ 50)"
proof -
  from assms(1) obtain x where a: "a = Fin x" and x: "\<bar>x - c\<bar> \<le> r" by (rule nearE)
  have "x / k - c / k = (x - c) / k" by (simp add: diff_divide_distrib)
  then have "\<bar>x / k - c / k\<bar> = \<bar>x - c\<bar> / k" using assms(2) by simp
  also have "\<dots> \<le> r / k" using x assms(2) by (simp add: divide_right_mono)
  finally have "\<bar>x / k - c / k\<bar> \<le> r / k" .
  from ofReal_near [OF this assms(3-5)] show ?thesis using assms(2) by (simp add: a)
qed

lemma near_sqrt:
  assumes "near a ca ra" and "0 \<le> c - r \<and> 0 \<le> r"
    and "(c - r)\<^sup>2 \<le> ca - ra" and "ca + ra \<le> (c + r)\<^sup>2"
    and "\<bar>c\<bar> + r \<le> M" and "1 \<le> M" and "M \<le> 2 ^ 1023"
  shows "near (jsqrt a) c (r + M / 2 ^ 50)"
proof -
  from assms(1) obtain x where a: "a = Fin x" and x: "\<bar>x - ca\<bar> \<le> ra" by (rule nearE)
  have lo: "(c - r)\<^sup>2 \<le> x" and hi: "x \<le> (c + r)\<^sup>2" using x assms(3,4) by linarith+
  have x0: "0 \<le> x" using lo by (rule order_trans [rotated]) simp
  have "c - r \<le> sqrt x" using lo assms(2) by (simp add: real_le_rsqrt)
  moreover have "0 \<le> c + r" using assms(2) by linarith
  then have "sqrt x \<le> c + r" using hi x0 by (intro real_le_lsqrt)
  ultimately have "\<bar>sqrt x - c\<bar> \<le> r" by linarith
  from ofReal_near [OF this assms(5-7)] show ?thesis using x0 by (simp add: a)
qed

lemma near_lt:
  assumes "near a ca ra" and "near b cb rb"
  shows "ca + ra < cb - rb \<Longrightarrow> jlt a b" and "cb + rb \<le> ca - ra \<Longrightarrow> \<not> jlt a b"
proof -
  from assms(1) obtain x where a: "a = Fin x" and x: "\<bar>x - ca\<bar> \<le> ra" by (rule nearE)
  from assms(2) obtain y where b: "b = Fin y" and y: "\<bar>y - cb\<bar> \<le> rb" by (rule nearE)
  show "ca + ra < cb - rb \<Longrightarrow> jlt a b" using x y by (simp add: a b; linarith?)
  show "cb + rb \<le> ca - ra \<Longrightarrow> \<not> jlt a b" using x y by (simp add: a b; linarith?)
qed

lemma near_min:
  assumes "near a c r" and "near b c r"
  shows "near (jmin a b) c r"
proof -
  from assms(1) obtain x where a: "a = Fin x" by (rule nearE)
  from assms(2) obtain y where b: "b = Fin y" by (rule nearE)
  show ?thesis using assms by (simp add: a b)
qed

lemma near_max_right:
  assumes "near a ca ra" and "near b cb rb" and "ca + ra < cb - rb"
  shows "jmax a b = b"
proof -
  from assms(1) obtain x where a: "a = Fin x" by (rule nearE)
  from assms(2) obtain y where b: "b = Fin y" by (rule nearE)
  show ?thesis using near_lt(1) [OF assms] by (simp add: a b)
qed

lemma mul_overflow:
  assumes "2 ^ 1025 \<le> x * y"
  shows "jmul (Fin x) (Fin y) = PInf"
  by (simp add: ofReal_PInf [OF assms])

lemma mul_underflow:
  assumes "x * y \<le> - (2 ^ 1025)"
  shows "jmul (Fin x) (Fin y) = NInf"
  by (simp add: ofReal_NInf [OF assms])

lemma zero_ops [simp]:
  "jmul (Fin 0) (Fin y) = Fin 0" "jmul (Fin x) (Fin 0) = Fin 0"
  "jadd (Fin 0) (Fin 0) = Fin 0" "jsub (Fin 0) (Fin 0) = Fin 0"
  "y \<noteq> 0 \<Longrightarrow> jdiv (Fin 0) (Fin y) = Fin 0"
  by (simp_all add: ofReal_0 jsub_def)

lemma nan_right [simp]:
  "jadd a NaN = NaN" "jmul a NaN = NaN" "jdiv a NaN = NaN" "jmax a NaN = NaN"
  "jmin a NaN = NaN" "\<not> jlt a NaN" "\<not> jle a NaN" "\<not> jeq a NaN"
  by (cases a; simp)+

lemma jlt_PInf [simp]: "\<not> jlt PInf b"
  by (cases b) simp_all

lemma near_add':
  assumes "near a ca ra" and "near b cb rb"
    and "\<bar>ca + cb\<bar> + (ra + rb) \<le> M \<and> 1 \<le> M \<and> M \<le> 2 ^ 1023
         \<and> \<bar>ca + cb - c\<bar> + (ra + rb + M / 2 ^ 50) \<le> r"
  shows "near (jadd a b) c r"
  using near_weaken [OF near_add [OF assms(1,2), of M], of c r] assms(3) by simp

lemma near_sub':
  assumes "near a ca ra" and "near b cb rb"
    and "\<bar>ca - cb\<bar> + (ra + rb) \<le> M \<and> 1 \<le> M \<and> M \<le> 2 ^ 1023
         \<and> \<bar>ca - cb - c\<bar> + (ra + rb + M / 2 ^ 50) \<le> r"
  shows "near (jsub a b) c r"
  using near_weaken [OF near_sub [OF assms(1,2), of M], of c r] assms(3) by simp

lemma near_mul':
  assumes "near a ca ra" and "near b cb rb"
    and "\<bar>ca * cb\<bar> + (\<bar>ca\<bar> * rb + \<bar>cb\<bar> * ra + ra * rb) \<le> M \<and> 1 \<le> M \<and> M \<le> 2 ^ 1023
         \<and> \<bar>ca * cb - c\<bar> + (\<bar>ca\<bar> * rb + \<bar>cb\<bar> * ra + ra * rb + M / 2 ^ 50) \<le> r"
  shows "near (jmul a b) c r"
  using near_weaken [OF near_mul [OF assms(1,2), of M], of c r] assms(3) by simp

lemma near_div_const':
  assumes "near a ca ra"
    and "0 < k \<and> \<bar>ca / k\<bar> + ra / k \<le> M \<and> 1 \<le> M \<and> M \<le> 2 ^ 1023
         \<and> \<bar>ca / k - c\<bar> + (ra / k + M / 2 ^ 50) \<le> r"
  shows "near (jdiv a (Fin k)) c r"
proof -
  from assms(2) have k: "0 < k" and b: "\<bar>ca / k\<bar> + ra / k \<le> M" and m: "1 \<le> M" "M \<le> 2 ^ 1023"
    and w: "\<bar>ca / k - c\<bar> + (ra / k + M / 2 ^ 50) \<le> r" by blast+
  have "near (jdiv a (Fin k)) (ca / k) (ra / k + M / 2 ^ 50)"
    by (rule near_div_const [OF assms(1) k b m])
  then show ?thesis using w by (rule near_weaken)
qed

lemma lit_near': "\<bar>d\<bar> \<le> 16 \<and> 1 / 2 ^ 46 \<le> r \<Longrightarrow> near (lit d) d r"
  using near_weaken [OF lit_near, of d d r] by simp

text \<open>The constants of the update, and the time step of a sample that reports 50 ms.\<close>

lemma gz_near: "near (lit 9.81) (981 / 100) (1 / 1000000000)"
  using lit_near' [of "9.81" "1 / 1000000000"] by simp

lemma lpf_near: "near lpfD (1 / 100) (1 / 1000000000)"
  unfolding lpfD_def using lit_near' [of "0.01" "1 / 1000000000"] by simp

lemma om_near: "near (jsub (Fin 1) lpfD) (99 / 100) (1 / 100000000)"
  by (rule near_sub' [where M = 16 and ca = 1 and ra = 0, OF _ lpf_near]) simp_all

lemma a1_near: "near (jmul (lit 9.81) (jsub (Fin 1) lpfD)) (97119 / 10000) (1 / 1000000)"
  by (rule near_mul' [where M = 16, OF gz_near om_near]) simp

lemma dt_near: "near (clampDtD (rawDtD s (zSample z (Some 50) now))) (1 / 20) (1 / 1000000000)"
proof -
  have r: "rawDtD s (zSample z (Some 50) now) = jdiv (Fin 50) (Fin 1000)"
    by (simp add: rawDtD_def zSample_def Let_def)
  have d: "near (jdiv (Fin 50) (Fin 1000)) (1 / 20) (1 / 1000000000)"
    by (rule near_div_const' [where M = 16 and ca = 50 and ra = 0]) simp_all
  have l: "near (lit 0.05) (1 / 20) (1 / 1000000000)"
    using lit_near' [of "0.05" "1 / 1000000000"] by simp
  have m: "near (jmin (lit 0.05) (jdiv (Fin 50) (Fin 1000))) (1 / 20) (1 / 1000000000)"
    by (rule near_min [OF l d])
  have s: "near (lit 0.005) (1 / 200) (1 / 1000000000)"
    using lit_near' [of "0.005" "1 / 1000000000"] by simp
  have "jmax (lit 0.005) (jmin (lit 0.05) (jdiv (Fin 50) (Fin 1000)))
      = jmin (lit 0.05) (jdiv (Fin 50) (Fin 1000))"
    by (rule near_max_right [OF s m]) simp
  then show ?thesis unfolding clampDtD_def r using m by simp
qed

lemma up_near:
  "\<exists>u. vecNormD (DVec3 (jneg (Fin 0)) (jneg (Fin 0)) (jneg (lit 9.81))) = DVec3 (Fin 0) (Fin 0) (Fin u)
       \<and> \<bar>u + 1\<bar> \<le> 1 / 1000000"
proof -
  from gz_near obtain g where g: "lit 9.81 = Fin g" and gb: "\<bar>g - 981 / 100\<bar> \<le> 1 / 1000000000"
    by (rule nearE)
  have "\<bar>- g - (- (981 / 100))\<bar> \<le> 1 / 1000000000" using gb by linarith
  then have n: "near (Fin (- g)) (- (981 / 100)) (1 / 1000000000)" by (simp only: near_Fin)
  have sq: "near (jmul (Fin (- g)) (Fin (- g))) (962361 / 10000) (1 / 10000000)"
    by (rule near_mul' [where M = 128, OF n n]) simp
  have sm: "near (jadd (Fin 0) (jmul (Fin (- g)) (Fin (- g)))) (962361 / 10000) (2 / 10000000)"
    by (rule near_add' [where M = 128 and ca = 0 and ra = 0, OF _ sq]) simp_all
  have len: "near (jsqrt (jadd (Fin 0) (jmul (Fin (- g)) (Fin (- g))))) (981 / 100) (1 / 10000000)"
    by (rule near_weaken [OF near_sqrt [where M = 16 and c = "981 / 100" and r = "5 / 100000000", OF sm]])
      (simp_all add: power2_eq_square)
  then obtain l where l: "jsqrt (jadd (Fin 0) (jmul (Fin (- g)) (Fin (- g)))) = Fin l"
    and lb: "\<bar>l - 981 / 100\<bar> \<le> 1 / 10000000" by (rule nearE)
  have lpos: "0 < l" using lb by linarith
  have vl: "vecLenD (DVec3 (Fin 0) (Fin 0) (Fin (- g))) = Fin l"
    using l by (simp add: vecLenD_def)
  have t: "truthy (Fin l)" using lpos by (simp add: truthy_def)
  have q: "\<bar>- g / l - (- 1)\<bar> \<le> 1 / 10000000"
  proof -
    have "- g / l - (- 1) = (l - g) / l" using lpos by (simp add: field_simps)
    moreover have "\<bar>l - g\<bar> \<le> 2 / 10000000" using lb gb by linarith
    moreover have "9 \<le> l" using lb by linarith
    ultimately have "\<bar>- g / l - (- 1)\<bar> \<le> (2 / 10000000) / 9"
      using lpos by (simp add: field_simps abs_le_iff) 
    then show ?thesis by simp
  qed
  from ofReal_near [OF q, of 16] have "near (ofReal (- g / l)) (- 1) (1 / 10000000 + 16 / 2 ^ 50)"
    by simp
  then obtain u where u: "ofReal (- g / l) = Fin u" and ub: "\<bar>u - (- 1)\<bar> \<le> 1 / 10000000 + 16 / 2 ^ 50"
    by (rule nearE)
  have "vecNormD (DVec3 (jneg (Fin 0)) (jneg (Fin 0)) (jneg (lit 9.81))) = DVec3 (Fin 0) (Fin 0) (Fin u)"
    using lpos u g vl t by (simp add: vecNormD_def Let_def)
  moreover have "\<bar>u + 1\<bar> \<le> 1 / 1000000" using ub by simp
  ultimately show ?thesis by blast
qed

text \<open>
  A sample of magnitude \<open>2 ^ 1020\<close> along z on a flat device: the gravity estimate is
  frozen, the vertical acceleration times 100 overflows, and the sample is not stationary.
\<close>

lemma near_step:
  assumes "near j c0 r0" and "\<bar>c0 - c\<bar> + r0 \<le> r"
  shows "near j c r"
  using assms by (rule near_weaken)

lemma huge_chain:
  assumes g: "gravityD s = DVec3 (Fin 0) (Fin 0) (lit 9.81)" and z: "\<bar>z\<bar> = 2 ^ 1020"
  shows "gNewD (gravityD s) (gMeasD (Accel (Some 0) (Some 0) (Some z))) (Fin 0) = gravityD s"
    and "jmul (aVertD (gMeasD (Accel (Some 0) (Some 0) (Some z))) (gravityD s)) (Fin 100)
           = (if z < 0 then PInf else NInf)"
    and "\<not> stationaryD (gMeasD (Accel (Some 0) (Some 0) (Some z))) (gravityD s) (Fin 0)"
proof -
  define B :: real where "B = 2 ^ 1020"
  have zB: "\<bar>z\<bar> = B" using z by (simp add: B_def)
  have Bbig: "1000000000000 \<le> B" by (simp add: B_def)
  have M: "1 \<le> 8 * B" "8 * B \<le> 2 ^ 1023" by (simp_all add: B_def)
  have M50: "8 * B / 2 ^ 50 \<le> B / 1000000000000" using Bbig by simp
  have over: "2 ^ 1025 = 32 * B" by (simp add: B_def)
  have gm: "gMeasD (Accel (Some 0) (Some 0) (Some z)) = DVec3 (Fin 0) (Fin 0) (Fin z)"
    by (simp add: gMeasD_def orZero_def)
  from lpf_near obtain lp where lp: "lpfD = Fin lp" by (rule nearE)
  from om_near [unfolded lp] obtain om where om: "jsub (Fin 1) (Fin lp) = Fin om" by (rule nearE)
  have zn: "near (Fin z) z 0" by simp
  have "near (jmul (Fin z) lpfD) (z * (1 / 100)) (\<bar>z\<bar> * (1 / 1000000000) + \<bar>1 / 100\<bar> * 0 + 0 * (1 / 1000000000) + 8 * B / 2 ^ 50)"
    by (rule near_mul [OF zn lpf_near _ M]) (use zB Bbig in \<open>simp add: abs_mult\<close>)
  then have a2: "near (jmul (Fin z) lpfD) (z / 100) (B / 100000000)"
    by (rule near_step) (use zB Bbig M50 in simp)
  have "near (jadd (jmul (lit 9.81) (jsub (Fin 1) lpfD)) (jmul (Fin z) lpfD))
      (97119 / 10000 + z / 100) (1 / 1000000 + B / 100000000 + 8 * B / 2 ^ 50)"
    by (rule near_add [OF a1_near a2 _ M]) (use zB Bbig in linarith)
  then have c: "near (jadd (jmul (lit 9.81) (jsub (Fin 1) lpfD)) (jmul (Fin z) lpfD))
      (z / 100) (B / 10000000)"
    by (rule near_step) (use zB Bbig M50 in linarith)
  have "near (jsub (Fin z) (jadd (jmul (lit 9.81) (jsub (Fin 1) lpfD)) (jmul (Fin z) lpfD)))
      (z - z / 100) (0 + B / 10000000 + 8 * B / 2 ^ 50)"
    by (rule near_sub [OF zn c _ M]) (use zB Bbig in linarith)
  then obtain w where w: "jsub (Fin z) (jadd (jmul (lit 9.81) (jsub (Fin 1) lpfD)) (jmul (Fin z) lpfD)) = Fin w"
    and wb: "\<bar>w - (z - z / 100)\<bar> \<le> 0 + B / 10000000 + 8 * B / 2 ^ 50" by (rule nearE)
  have wbig: "B / 2 \<le> \<bar>w\<bar>" using wb zB Bbig M50 by linarith
  have "64 * (B / 2) \<le> \<bar>w\<bar> * \<bar>w\<bar>"
    by (rule mult_mono) (use wbig Bbig in linarith)+
  then have "2 ^ 1025 \<le> w * w" unfolding over by (simp add: abs_mult_self_eq)
  then have ww: "jmul (Fin w) (Fin w) = PInf" by (rule mul_overflow)
  have cand: "vecSubD (DVec3 (Fin 0) (Fin 0) (Fin z)) (gCandidateD (gravityD s) (DVec3 (Fin 0) (Fin 0) (Fin z)))
      = DVec3 (Fin 0) (Fin 0) (Fin w)"
  proof -
    have x0: "jsub (Fin 0) (jadd (jmul (Fin 0) (jsub (Fin 1) lpfD)) (jmul (Fin 0) lpfD)) = Fin 0"
      unfolding lp om by simp
    show ?thesis
      unfolding g gCandidateD_def vecAddD_def vecScaleD_def vecSubD_def DVec3.sel x0 w ..
  qed
  have len: "vecLenD (DVec3 (Fin 0) (Fin 0) (Fin w)) = PInf"
    using ww by (simp add: vecLenD_def)
  show frozen: "gNewD (gravityD s) (gMeasD (Accel (Some 0) (Some 0) (Some z))) (Fin 0) = gravityD s"
    by (simp add: gNewD_def allowGUpdateD_def gm cand len Let_def)
  have "near (jsub (Fin z) (lit 9.81)) (z - 981 / 100) (0 + 1 / 1000000000 + 8 * B / 2 ^ 50)"
    by (rule near_sub [OF zn gz_near _ M]) (use zB Bbig in linarith)
  then have az: "near (jsub (Fin z) (lit 9.81)) z (B / 1000000)"
    by (rule near_step) (use zB Bbig M50 in linarith)
  from up_near obtain u where up: "vecNormD (DVec3 (jneg (Fin 0)) (jneg (Fin 0)) (jneg (lit 9.81)))
      = DVec3 (Fin 0) (Fin 0) (Fin u)" and ub: "\<bar>u + 1\<bar> \<le> 1 / 1000000" by blast
  have un: "near (Fin u) (- 1) (1 / 1000000)" using ub by simp
  have "near (jmul (jsub (Fin z) (lit 9.81)) (Fin u)) (z * (- 1))
      (\<bar>z\<bar> * (1 / 1000000) + \<bar>- 1\<bar> * (B / 1000000) + B / 1000000 * (1 / 1000000) + 8 * B / 2 ^ 50)"
    by (rule near_mul [OF az un _ M]) (use zB Bbig in \<open>simp add: abs_mult\<close>)
  then have pr: "near (jmul (jsub (Fin z) (lit 9.81)) (Fin u)) (- z) (B / 100000)"
    by (rule near_step) (use zB Bbig M50 in simp)
  have z0: "near (Fin 0) 0 0" by simp
  have "near (jadd (Fin 0) (jmul (jsub (Fin z) (lit 9.81)) (Fin u))) (0 + - z)
      (0 + B / 100000 + 8 * B / 2 ^ 50)"
    by (rule near_add [OF z0 pr _ M]) (use zB Bbig in linarith)
  then obtain v where v: "jadd (Fin 0) (jmul (jsub (Fin z) (lit 9.81)) (Fin u)) = Fin v"
    and vb: "\<bar>v - (0 + - z)\<bar> \<le> 0 + B / 100000 + 8 * B / 2 ^ 50" by (rule nearE)
  have av: "aVertD (DVec3 (Fin 0) (Fin 0) (Fin z)) (gravityD s) = Fin v"
  proof -
    have x0: "jadd (jmul (jsub (Fin 0) (Fin 0)) (Fin 0)) (jmul (jsub (Fin 0) (Fin 0)) (Fin 0)) = Fin 0"
      by simp
    show ?thesis
      unfolding aVertD_def g vecSubD_def vecDotD_def Let_def DVec3.sel up x0 v ..
  qed
  show "jmul (aVertD (gMeasD (Accel (Some 0) (Some 0) (Some z))) (gravityD s)) (Fin 100)
           = (if z < 0 then PInf else NInf)"
  proof (cases "z < 0")
    case True
    then have "B / 2 \<le> v" using vb zB Bbig M50 by linarith
    then have "2 ^ 1025 \<le> v * 100" unfolding over using Bbig by linarith
    then have "jmul (Fin v) (Fin 100) = PInf" by (rule mul_overflow)
    then show ?thesis unfolding gm av using True by simp
  next
    case False
    then have "v \<le> - (B / 2)" using vb zB Bbig M50 by linarith
    then have "v * 100 \<le> - (2 ^ 1025)" unfolding over using Bbig by linarith
    then have "jmul (Fin v) (Fin 100) = NInf" by (rule mul_underflow)
    then show ?thesis unfolding gm av using False by simp
  qed
  have vbig: "1 \<le> \<bar>v\<bar>" using vb zB Bbig M50 by linarith
  have q: "near (lit 0.03) (3 / 100) (1 / 1000000000)"
    using lit_near' [of "0.03" "1 / 1000000000"] by simp
  then obtain q' where q': "lit 0.03 = Fin q'" and qb: "\<bar>q' - 3 / 100\<bar> \<le> 1 / 1000000000"
    by (rule nearE)
  have "\<not> \<bar>v\<bar> < q'" using vbig qb by linarith
  then have "\<not> jlt (jabs (Fin v)) (lit 0.03)" unfolding q' by simp
  then show "\<not> stationaryD (gMeasD (Accel (Some 0) (Some 0) (Some z))) (gravityD s) (Fin 0)"
    by (simp add: stationaryD_def gm av Let_def)
qed

lemma hugeAccel_abs: "\<bar>- hugeAccel\<bar> = 2 ^ 1020" "\<bar>hugeAccel\<bar> = 2 ^ 1020"
  by (simp_all add: hugeAccel_def)

lemma hugeAccel_pos: "0 < hugeAccel"
  by (simp add: hugeAccel_def)

lemma reportD_frame:
  "gravityD (reportD st s) = gravityD s"
  "velocityD (reportD st s) = velocityD s"
  "displacementD (reportD st s) = displacementD s"
  "peakDisplacementD (reportD st s) = peakDisplacementD s"
  "stationarySamplesD (reportD st s) = stationarySamplesD s"
  by (simp_all add: reportD_def Let_def)

lemma integrateD_gravity: "gravityD (integrateD st a dt s) = gravityD s"
  by (simp add: integrateD_def Let_def)

lemma damping_pos: "\<exists>q. lit 0.9995 = Fin q \<and> 0 < q"
proof -
  have "near (lit 0.9995) (9995 / 10000) (1 / 1000000000)"
    using lit_near' [of "0.9995" "1 / 1000000000"] by simp
  then obtain q where "lit 0.9995 = Fin q" and "\<bar>q - 9995 / 10000\<bar> \<le> 1 / 1000000000"
    by (rule nearE)
  then have "lit 0.9995 = Fin q \<and> 0 < q" by (simp, linarith)
  then show ?thesis ..
qed

lemma integrate_up:
  assumes "velocityD s = Fin 0" and "displacementD s = Fin 0" and "peakDisplacementD s = Fin 0"
    and "0 < t"
  shows "velocityD (integrateD False PInf (Fin t) s) = PInf"
    and "displacementD (integrateD False PInf (Fin t) s) = Fin 300"
    and "peakDisplacementD (integrateD False PInf (Fin t) s) = Fin 300"
proof -
  from damping_pos obtain q where q: "lit 0.9995 = Fin q" "0 < q" by blast
  show "velocityD (integrateD False PInf (Fin t) s) = PInf"
    "displacementD (integrateD False PInf (Fin t) s) = Fin 300"
    "peakDisplacementD (integrateD False PInf (Fin t) s) = Fin 300"
    using assms q by (simp_all add: integrateD_def Let_def)
qed

lemma integrate_nan:
  assumes "velocityD s = PInf" and "0 < t"
  shows "velocityD (integrateD False NInf (Fin t) s) = NaN"
    and "displacementD (integrateD False NInf (Fin t) s) = NaN"
    and "peakDisplacementD (integrateD False NInf (Fin t) s) = NaN"
  using assms by (simp_all add: integrateD_def Let_def)

lemma integrate_down:
  assumes "velocityD s = Fin 0" and "displacementD s = Fin 0" and "peakDisplacementD s = Fin 0"
    and "0 < t"
  shows "velocityD (integrateD False NInf (Fin t) s) = NInf"
    and "displacementD (integrateD False NInf (Fin t) s) = Fin 0"
    and "peakDisplacementD (integrateD False NInf (Fin t) s) = Fin 0"
proof -
  from damping_pos obtain q where q: "lit 0.9995 = Fin q" "0 < q" by blast
  show "velocityD (integrateD False NInf (Fin t) s) = NInf"
    "displacementD (integrateD False NInf (Fin t) s) = Fin 0"
    "peakDisplacementD (integrateD False NInf (Fin t) s) = Fin 0"
    using assms q by (simp_all add: integrateD_def Let_def)
qed

lemma huge_sample:
  assumes g: "gravityD s = DVec3 (Fin 0) (Fin 0) (lit 9.81)" and z: "\<bar>z\<bar> = 2 ^ 1020"
  shows "\<exists>t. 0 < t \<and> onMotionD (zSample z (Some 50) now) s =
    reportD False (integrateD False (if z < 0 then PInf else NInf) (Fin t)
      (s\<lparr>lastTimestampD := Fin now, gravityD := gravityD s\<rparr>))"
proof -
  from dt_near [of s z now] obtain t
    where dt: "clampDtD (rawDtD s (zSample z (Some 50) now)) = Fin t"
      and tb: "\<bar>t - 1 / 20\<bar> \<le> 1 / 1000000000" by (rule nearE)
  have t: "0 < t" using tb by linarith
  note c = huge_chain [OF g z]
  have "onMotionD (zSample z (Some 50) now) s =
    reportD False (integrateD False (if z < 0 then PInf else NInf) (Fin t)
      (s\<lparr>lastTimestampD := Fin now, gravityD := gravityD s\<rparr>))"
    unfolding onMotionD_def Let_def dt
    using c by (simp add: zSample_def rotMagD_def)
  then show ?thesis using t by blast
qed

lemma measuringD_fields:
  "gravityD measuringD = DVec3 (Fin 0) (Fin 0) (lit 9.81)"
  "velocityD measuringD = Fin 0" "displacementD measuringD = Fin 0"
  "peakDisplacementD measuringD = Fin 0"
  by (simp_all add: measuringD_def)

lemma overflow_first:
  "gravityD (onMotionD (zSample (- hugeAccel) (Some 50) 0) measuringD)
     = DVec3 (Fin 0) (Fin 0) (lit 9.81)"
  "velocityD (onMotionD (zSample (- hugeAccel) (Some 50) 0) measuringD) = PInf"
  "displacementD (onMotionD (zSample (- hugeAccel) (Some 50) 0) measuringD) = Fin 300"
  "peakDisplacementD (onMotionD (zSample (- hugeAccel) (Some 50) 0) measuringD) = Fin 300"
proof -
  from huge_sample [OF measuringD_fields(1) hugeAccel_abs(1), of 0] hugeAccel_pos
  obtain t where t: "0 < t"
    and e: "onMotionD (zSample (- hugeAccel) (Some 50) 0) measuringD =
      reportD False (integrateD False PInf (Fin t)
        (measuringD\<lparr>lastTimestampD := Fin 0, gravityD := gravityD measuringD\<rparr>))"
    by auto
  let ?s = "measuringD\<lparr>lastTimestampD := Fin 0, gravityD := gravityD measuringD\<rparr>"
  have s: "velocityD ?s = Fin 0" "displacementD ?s = Fin 0" "peakDisplacementD ?s = Fin 0"
    by (simp_all add: measuringD_fields)
  note i = integrate_up [OF s t]
  show "gravityD (onMotionD (zSample (- hugeAccel) (Some 50) 0) measuringD)
     = DVec3 (Fin 0) (Fin 0) (lit 9.81)"
    unfolding e by (simp add: reportD_frame integrateD_gravity measuringD_fields)
  show "velocityD (onMotionD (zSample (- hugeAccel) (Some 50) 0) measuringD) = PInf"
    unfolding e reportD_frame by (rule i)
  show "displacementD (onMotionD (zSample (- hugeAccel) (Some 50) 0) measuringD) = Fin 300"
    unfolding e reportD_frame by (rule i)
  show "peakDisplacementD (onMotionD (zSample (- hugeAccel) (Some 50) 0) measuringD) = Fin 300"
    unfolding e reportD_frame by (rule i)
qed

lemma overflow_second:
  "velocityD (feedD measuringD overflowRun) = NaN"
  "displacementD (feedD measuringD overflowRun) = NaN"
  "peakDisplacementD (feedD measuringD overflowRun) = NaN"
proof -
  let ?m = "onMotionD (zSample (- hugeAccel) (Some 50) 0) measuringD"
  have f: "feedD measuringD overflowRun = onMotionD (zSample hugeAccel (Some 50) 0) ?m"
    by (simp add: feedD_def overflowRun_def)
  from huge_sample [OF overflow_first(1) hugeAccel_abs(2), of 0] hugeAccel_pos
  obtain t where t: "0 < t"
    and e: "onMotionD (zSample hugeAccel (Some 50) 0) ?m =
      reportD False (integrateD False NInf (Fin t)
        (?m\<lparr>lastTimestampD := Fin 0, gravityD := gravityD ?m\<rparr>))"
    by auto
  have s: "velocityD (?m\<lparr>lastTimestampD := Fin 0, gravityD := gravityD ?m\<rparr>) = PInf"
    by (simp add: overflow_first)
  note i = integrate_nan [OF s t]
  show "velocityD (feedD measuringD overflowRun) = NaN"
    unfolding f e reportD_frame by (rule i)
  show "displacementD (feedD measuringD overflowRun) = NaN"
    unfolding f e reportD_frame by (rule i)
  show "peakDisplacementD (feedD measuringD overflowRun) = NaN"
    unfolding f e reportD_frame by (rule i)
qed

text \<open>
  The readout. Below 4096 a rounding moves a number by at most \<open>2 ^ - 38\<close>, so the
  confidence formula on doubles stays within \<open>40 * 2 ^ - 38\<close> of the exact one.
\<close>

lemma small_round:
  assumes "\<bar>x\<bar> \<le> 4096"
  shows "\<exists>y. ofReal x = Fin y \<and> \<bar>y - x\<bar> \<le> 1 / 274877906944"
proof -
  have "\<bar>x - x\<bar> \<le> 0" by simp
  from ofReal_near [OF this, of 4096] assms
  have "near (ofReal x) x (0 + 4096 / 2 ^ 50)" by simp
  then obtain y where "ofReal x = Fin y" and "\<bar>y - x\<bar> \<le> 0 + 4096 / 2 ^ 50" by (rule nearE)
  then have "ofReal x = Fin y \<and> \<bar>y - x\<bar> \<le> 1 / 274877906944" by simp
  then show ?thesis ..
qed

lemma min_slope: "\<bar>min a x - min a y\<bar> \<le> \<bar>x - y\<bar>" for a x y :: real
  by linarith

lemma specConfidence_slope:
  "\<bar>specConfidence h st - specConfidence p st\<bar> \<le> 7 / 40 * \<bar>h - p\<bar>"
proof -
  define d where "d = 7 / 40 * \<bar>h - p\<bar>"
  define a1 where "a1 = min 35 (h * 7 / 40)"
  define b1 where "b1 = min 35 (p * 7 / 40)"
  define a2 where "a2 = min 95 (60 + a1)"
  define b2 where "b2 = min 95 (60 + b1)"
  have "h * 7 / 40 - p * 7 / 40 = 7 / 40 * (h - p)" by simp
  then have "\<bar>h * 7 / 40 - p * 7 / 40\<bar> = d" unfolding d_def by (simp only: abs_mult; simp?)
  then have 0: "\<bar>h * 7 / 40 - p * 7 / 40\<bar> \<le> d" by simp
  have 1: "\<bar>a1 - b1\<bar> \<le> d"
    unfolding a1_def b1_def by (rule order_trans [OF min_slope 0])
  then have "\<bar>(60 + a1) - (60 + b1)\<bar> \<le> d" by simp
  then have 2: "\<bar>a2 - b2\<bar> \<le> d"
    unfolding a2_def b2_def by (rule order_trans [OF min_slope])
  then have "\<bar>(a2 + 3) - (b2 + 3)\<bar> \<le> d" by simp
  then have 3: "\<bar>min (199 / 2) (a2 + 3) - min (199 / 2) (b2 + 3)\<bar> \<le> d"
    by (rule order_trans [OF min_slope])
  have sh: "specConfidence h st = (if st then min (199 / 2) (a2 + 3) else a2)"
    unfolding specConfidence_alt a2_def a1_def ..
  have sp: "specConfidence p st = (if st then min (199 / 2) (b2 + 3) else b2)"
    unfolding specConfidence_alt b2_def b1_def ..
  show ?thesis unfolding sh sp d_def [symmetric] using 2 3 by (cases st) (simp_all only: if_True if_False)
qed

lemma confD_near:
  assumes "0 \<le> h" and "h \<le> 301"
  shows "\<exists>cf. confD (Fin h) st = Fin cf \<and> \<bar>cf - specConfidence h st\<bar> \<le> 40 / 274877906944"
proof -
  have "\<bar>h / 200\<bar> \<le> 4096" using assms by simp
  from small_round [OF this] obtain t1 where t1: "ofReal (h / 200) = Fin t1"
    and b1: "\<bar>t1 - h / 200\<bar> \<le> 1 / 274877906944" by blast
  have "\<bar>t1 * 35\<bar> \<le> 4096" using b1 assms by linarith
  from small_round [OF this] obtain t2 where t2: "ofReal (t1 * 35) = Fin t2"
    and b2: "\<bar>t2 - t1 * 35\<bar> \<le> 1 / 274877906944" by blast
  have e1: "\<bar>t2 - h * 7 / 40\<bar> \<le> 36 / 274877906944" using b1 b2 by linarith
  have e2: "\<bar>min 35 t2 - min 35 (h * 7 / 40)\<bar> \<le> 36 / 274877906944"
    by (rule order_trans [OF min_slope e1])
  define u2 where "u2 = min 35 t2"
  define w2 where "w2 = min 35 (h * 7 / 40)"
  have w2b: "0 \<le> w2" "w2 \<le> 35" unfolding w2_def using assms by linarith+
  have e2': "\<bar>u2 - w2\<bar> \<le> 36 / 274877906944" using e2 by (simp only: u2_def w2_def)
  have "\<bar>60 + u2\<bar> \<le> 4096" using e2' w2b by linarith
  from small_round [OF this] obtain s1 where s1: "ofReal (60 + u2) = Fin s1"
    and b3: "\<bar>s1 - (60 + u2)\<bar> \<le> 1 / 274877906944" by blast
  have e3: "\<bar>s1 - (60 + w2)\<bar> \<le> 37 / 274877906944" using b3 e2' by linarith
  define u3 where "u3 = min 95 s1"
  define w3 where "w3 = min 95 (60 + w2)"
  have w3b: "60 \<le> w3" "w3 \<le> 95" unfolding w3_def using w2b by linarith+
  have e4: "\<bar>u3 - w3\<bar> \<le> 37 / 274877906944"
    unfolding u3_def w3_def by (rule order_trans [OF min_slope e3])
  have "\<bar>u3 + 3\<bar> \<le> 4096" using e4 w3b by linarith
  from small_round [OF this] obtain s3 where s3: "ofReal (u3 + 3) = Fin s3"
    and b4: "\<bar>s3 - (u3 + 3)\<bar> \<le> 1 / 274877906944" by blast
  have e5: "\<bar>s3 - (w3 + 3)\<bar> \<le> 38 / 274877906944" using b4 e4 by linarith
  have e6: "\<bar>min (199 / 2) s3 - min (199 / 2) (w3 + 3)\<bar> \<le> 38 / 274877906944"
    by (rule order_trans [OF min_slope e5])
  have m1: "jmin (Fin 35) (Fin t2) = Fin u2" by (simp add: min_def u2_def)
  have m2: "jmin (Fin 95) (Fin s1) = Fin u3" by (simp add: min_def u3_def)
  have m3: "jmin (Fin (199 / 2)) (Fin s3) = Fin (min (199 / 2) s3)" by (simp add: min_def)
  have j1: "jdiv (Fin h) (Fin 200) = Fin t1" using t1 by simp
  have j2: "jmul (Fin t1) (Fin 35) = Fin t2" using t2 by simp
  have j3: "jadd (Fin 60) (Fin u2) = Fin s1" using s1 by simp
  have j4: "jadd (Fin u3) (Fin 3) = Fin s3" using s3 by simp
  have base: "jmin (Fin 95) (jadd (Fin 60) (jmin (Fin 35) (jmul (jdiv (Fin h) (Fin 200)) (Fin 35))))
      = Fin u3"
    unfolding j1 j2 m1 j3 m2 ..
  have spec: "specConfidence h st = (if st then min (199 / 2) (w3 + 3) else w3)"
    unfolding specConfidence_alt w3_def w2_def ..
  show ?thesis
  proof (cases st)
    case False
    have "confD (Fin h) st = Fin u3"
      unfolding confD_def Let_def base using False by simp
    moreover have "\<bar>u3 - specConfidence h st\<bar> \<le> 40 / 274877906944"
      unfolding spec using False e4 by simp
    ultimately show ?thesis by blast
  next
    case True
    have "confD (Fin h) st = Fin (min (199 / 2) s3)"
      unfolding confD_def Let_def base j4 m3 using True by simp
    moreover have "\<bar>min (199 / 2) s3 - specConfidence h st\<bar> \<le> 40 / 274877906944"
      unfolding spec using True e6 by simp
    ultimately show ?thesis by blast
  qed
qed

lemma onMotionD_accel:
  assumes "accelerationIncludingGravity e = Some ag"
  shows "onMotionD e s =
    reportD (sampleStationaryD s ag e)
      (integrateD (sampleStationaryD s ag e)
         (jmul (aVertD (gMeasD ag) (sampleGravityD s ag e)) (Fin 100))
         (clampDtD (rawDtD s e))
         (s\<lparr>lastTimestampD := Fin (tsNow e), gravityD := sampleGravityD s ag e\<rparr>))"
  using assms
  by (simp add: onMotionD_def sampleStationaryD_def sampleGravityD_def Let_def)

lemma onMotionD_peak:
  assumes "accelerationIncludingGravity e = Some ag"
  shows "\<exists>t. onMotionD e s = reportD (sampleStationaryD s ag e) t
             \<and> peakDisplacementD t = peakDisplacementD (onMotionD e s)"
  unfolding onMotionD_accel [OF assms] reportD_frame by blast

lemma round_tenth:
  assumes "0 \<le> x" and "x \<le> 400"
  shows "\<exists>k. jdiv (jround (jmul (Fin x) (Fin 10))) (Fin 10) = ofReal (of_int k / 10)
           \<and> \<bar>of_int k - x * 10\<bar> \<le> 1 / 2 + 1 / 274877906944 \<and> 0 \<le> k"
proof -
  have "\<bar>x * 10\<bar> \<le> 4096" using assms by simp
  from small_round [OF this] obtain y where y: "ofReal (x * 10) = Fin y"
    and yb: "\<bar>y - x * 10\<bar> \<le> 1 / 274877906944" by blast
  define k where "k = \<lfloor>y + 1 / 2\<rfloor>"
  have kb: "of_int k \<le> y + 1 / 2" "y + 1 / 2 < of_int k + 1" unfolding k_def by linarith+
  have "- 1 < y + 1 / 2 - 1" using yb assms by linarith
  then have "(- 1 :: real) < of_int k" using kb by linarith
  then have k0: "0 \<le> k" by linarith
  have e: "jdiv (jround (jmul (Fin x) (Fin 10))) (Fin 10) = ofReal (of_int k / 10)"
    by (simp add: y k_def)
  have "\<bar>of_int k - x * 10\<bar> \<le> 1 / 2 + 1 / 274877906944" using kb yb by linarith
  then show ?thesis using e k0 by blast
qed

lemma tenth_near:
  assumes "0 \<le> k" and "k \<le> 4000"
  shows "\<exists>h. ofReal (of_int k / 10) = Fin h \<and> \<bar>h - of_int k / 10\<bar> \<le> 1 / 274877906944
           \<and> 0 \<le> h"
proof -
  have "\<bar>real_of_int k / 10\<bar> \<le> 4096" using assms by simp
  from small_round [OF this] obtain h where h: "ofReal (of_int k / 10) = Fin h"
    and hb: "\<bar>h - of_int k / 10\<bar> \<le> 1 / 274877906944" by blast
  have "0 \<le> h"
  proof (cases "k = 0")
    case True
    then show ?thesis using h by simp
  next
    case False
    then have "1 \<le> k" using assms by linarith
    then have "(1::real) \<le> of_int k" by simp
    then show ?thesis using hb by linarith
  qed
  then show ?thesis using h hb by blast
qed

lemma tenth_le:
  assumes "ofReal (of_int k / 10) = Fin c" and "0 \<le> k" and "k \<le> 630"
  shows "c \<le> 63"
proof (cases "k = 630")
  case True
  have "ofReal (of_int 63) = Fin (of_int 63)" by (rule ofReal_int) simp
  then show ?thesis using assms(1) True by simp
next
  case False
  then have "k \<le> 629" using assms by linarith
  then have b: "real_of_int k \<le> 629" by simp
  from tenth_near [of k] assms obtain h where h: "ofReal (of_int k / 10) = Fin h"
    and hb: "\<bar>h - of_int k / 10\<bar> \<le> 1 / 274877906944" by auto
  have "c = h" using assms(1) h by simp
  then show ?thesis using hb b by linarith
qed

lemma reportD_readout:
  assumes pk: "peakDisplacementD s = Fin p" and p0: "0 \<le> p" and p1: "p \<le> 300"
  shows "\<exists>h c. heightCmD (reportD st s) = Fin h \<and> confidenceD (reportD st s) = Fin c
           \<and> Fin h = jdiv (jround (jmul (Fin p) (Fin 10))) (Fin 10)
           \<and> Fin c = jdiv (jround (jmul (confD (Fin h) st) (Fin 10))) (Fin 10)
           \<and> \<bar>h - p\<bar> \<le> 1 / 20 + 1 / 1000000000
           \<and> \<bar>c - specConfidence h st\<bar> \<le> 1 / 20 + 1 / 1000000000
           \<and> \<bar>c - specConfidence p st\<bar> \<le> 3 / 50
           \<and> (p \<le> 1 / 5 \<longrightarrow> c \<le> 63)"
proof -
  have "p \<le> 400" using p1 by simp
  from round_tenth [OF p0 this] obtain k where
    k: "jdiv (jround (jmul (Fin p) (Fin 10))) (Fin 10) = ofReal (of_int k / 10)"
    and kb: "\<bar>of_int k - p * 10\<bar> \<le> 1 / 2 + 1 / 274877906944" and k0: "0 \<le> k" by blast
  have "real_of_int k < 3001" using kb p1 by linarith
  then have k1: "k \<le> 3000" by linarith
  then have "k \<le> 4000" by simp
  from tenth_near [OF k0 this] obtain h where h: "ofReal (of_int k / 10) = Fin h"
    and hb: "\<bar>h - of_int k / 10\<bar> \<le> 1 / 274877906944" and h0: "0 \<le> h" by blast
  have kr: "real_of_int k \<le> 3000" using k1 by simp
  have h1: "h \<le> 301" using hb kr by linarith
  have "h \<le> 400" using h1 by simp
  from round_tenth [OF h0 this] obtain k' where
    k': "jdiv (jround (jmul (Fin h) (Fin 10))) (Fin 10) = ofReal (of_int k' / 10)"
    and kb': "\<bar>of_int k' - h * 10\<bar> \<le> 1 / 2 + 1 / 274877906944" by blast
  have "\<bar>real_of_int k' - real_of_int k\<bar> < 1" using kb' hb by linarith
  then have "\<bar>real_of_int (k' - k)\<bar> < 1" by simp
  then have "\<bar>k' - k\<bar> < 1" by linarith
  then have same: "k' = k" by simp
  have cm: "cmD (toFeetInchesD (Fin h)) = Fin h"
    unfolding toFeetInchesD_def Let_def FeetInchesD.simps k' same h ..
  have height: "heightCmD (reportD st s) = Fin h"
    unfolding reportD_def Let_def pk k h cm by simp
  from confD_near [OF h0 h1, of st] obtain cf where cf: "confD (Fin h) st = Fin cf"
    and cfb: "\<bar>cf - specConfidence h st\<bar> \<le> 40 / 274877906944" by blast
  have sb: "60 \<le> specConfidence h st" "specConfidence h st \<le> 199 / 2"
    unfolding specConfidence_alt using h0 by (cases st; simp)+
  have cf0: "0 \<le> cf" "cf \<le> 400" using cfb sb by linarith+
  from round_tenth [OF cf0] obtain j where
    j: "jdiv (jround (jmul (Fin cf) (Fin 10))) (Fin 10) = ofReal (of_int j / 10)"
    and jb: "\<bar>of_int j - cf * 10\<bar> \<le> 1 / 2 + 1 / 274877906944" and j0: "0 \<le> j" by blast
  have "real_of_int j < 4000" using jb cf0 cfb sb by linarith
  then have "j \<le> 4000" by linarith
  from tenth_near [OF j0 this] obtain c where c: "ofReal (of_int j / 10) = Fin c"
    and cb: "\<bar>c - of_int j / 10\<bar> \<le> 1 / 274877906944" by blast
  have conf: "confidenceD (reportD st s) = Fin c"
    unfolding reportD_def Let_def pk k h cm cf j c by simp
  have b1: "\<bar>h - p\<bar> \<le> 1 / 20 + 1 / 1000000000" using hb kb by linarith
  have b2: "\<bar>c - specConfidence h st\<bar> \<le> 1 / 20 + 1 / 1000000000" using cb jb cfb by linarith
  have "7 / 40 * \<bar>h - p\<bar> \<le> 7 / 40 * (1 / 20 + 1 / 1000000000)"
    using b1 by (rule mult_left_mono) simp
  then have "7 / 40 * \<bar>h - p\<bar> \<le> 9 / 1000" by simp
  then have sl: "\<bar>specConfidence h st - specConfidence p st\<bar> \<le> 9 / 1000"
    by (rule order_trans [OF specConfidence_slope])
  have b3: "\<bar>c - specConfidence p st\<bar> \<le> 3 / 50" using b1 b2 sl by linarith
  have b4: "p \<le> 1 / 5 \<longrightarrow> c \<le> 63"
  proof
    assume "p \<le> 1 / 5"
    then have hs: "h \<le> 26 / 100" using b1 by linarith
    have "specConfidence h st \<le> 63 + h * 7 / 40"
      unfolding specConfidence_alt by (cases st) simp_all
    then have "cf * 10 \<le> 6304551 / 10000" using cfb hs by linarith
    then have "real_of_int j < 631" using jb by linarith
    then have "j \<le> 630" by linarith
    with c j0 show "c \<le> 63" by (rule tenth_le)
  qed
  have e1: "Fin h = jdiv (jround (jmul (Fin p) (Fin 10))) (Fin 10)" unfolding k h ..
  have e2: "Fin c = jdiv (jround (jmul (confD (Fin h) st) (Fin 10))) (Fin 10)" unfolding cf j c ..
  show ?thesis using height conf e1 e2 b1 b2 b3 b4 by blast
qed

text \<open>The push sample on a flat device, and a sample of \<open>2 ^ 1020\<close> on it.\<close>

lemma push_chain:
  assumes g: "gravityD s = DVec3 (Fin 0) (Fin 0) (lit 9.81)"
  shows "gNewD (gravityD s) (gMeasD (Accel (Some 0) (Some 0) (Some (141 / 16)))) (Fin 0) = gravityD s"
    and "near (jmul (aVertD (gMeasD (Accel (Some 0) (Some 0) (Some (141 / 16)))) (gravityD s)) (Fin 100))
           (399 / 4) (1 / 100)"
    and "\<not> stationaryD (gMeasD (Accel (Some 0) (Some 0) (Some (141 / 16)))) (gravityD s) (Fin 0)"
proof -
  have gm: "gMeasD (Accel (Some 0) (Some 0) (Some (141 / 16))) = DVec3 (Fin 0) (Fin 0) (Fin (141 / 16))"
    by (simp add: gMeasD_def orZero_def)
  from lpf_near obtain lp where lp: "lpfD = Fin lp" by (rule nearE)
  from om_near [unfolded lp] obtain om where om: "jsub (Fin 1) (Fin lp) = Fin om" by (rule nearE)
  have zn: "near (Fin (141 / 16)) (141 / 16) 0" by simp
  have a2: "near (jmul (Fin (141 / 16)) lpfD) (141 / 1600) (1 / 10000000)"
    by (rule near_mul' [where M = 16, OF zn lpf_near]) simp
  have c: "near (jadd (jmul (lit 9.81) (jsub (Fin 1) lpfD)) (jmul (Fin (141 / 16)) lpfD))
      (392001 / 40000) (1 / 100000)"
    by (rule near_add' [where M = 16, OF a1_near a2]) simp
  have "near (jsub (Fin (141 / 16)) (jadd (jmul (lit 9.81) (jsub (Fin 1) lpfD)) (jmul (Fin (141 / 16)) lpfD)))
      (- (39501 / 40000)) (1 / 10000)"
    by (rule near_sub' [where M = 16, OF zn c]) simp
  then obtain w where w: "jsub (Fin (141 / 16)) (jadd (jmul (lit 9.81) (jsub (Fin 1) lpfD)) (jmul (Fin (141 / 16)) lpfD)) = Fin w"
    and wb: "\<bar>w - (- (39501 / 40000))\<bar> \<le> 1 / 10000" by (rule nearE)
  have wn: "near (Fin w) (- (39501 / 40000)) (1 / 10000)" using wb by simp
  have "near (jmul (Fin w) (Fin w)) (97 / 100) (1 / 100)"
    by (rule near_mul' [where M = 16, OF wn wn]) simp
  then obtain q where q: "jmul (Fin w) (Fin w) = Fin q" and qb: "\<bar>q - 97 / 100\<bar> \<le> 1 / 100"
    by (rule nearE)
  have "near (jadd (Fin 0) (Fin q)) (97 / 100) (2 / 100)"
    by (rule near_add' [where M = 16 and ca = 0 and ra = 0 and cb = "97 / 100" and rb = "1 / 100"])
      (use qb in simp_all)
  then obtain q' where q': "jadd (Fin 0) (Fin q) = Fin q'" and qb': "\<bar>q' - 97 / 100\<bar> \<le> 2 / 100"
    by (rule nearE)
  have "(1 / 2)\<^sup>2 \<le> q'" using qb' by (simp add: power2_eq_square; linarith?)
  then have sq: "1 / 2 \<le> sqrt q'" by (rule real_le_rsqrt)
  have "q' \<le> 1" using qb' by linarith
  then have "sqrt q' \<le> sqrt 1" by (rule real_sqrt_le_mono)
  then have "sqrt q' \<le> 1" by simp
  then have "\<bar>sqrt q'\<bar> \<le> 4096" using sq by linarith
  from small_round [OF this] obtain l where l: "ofReal (sqrt q') = Fin l"
    and lb: "\<bar>l - sqrt q'\<bar> \<le> 1 / 274877906944" by blast
  have q0: "\<not> q' < 0" using qb' by linarith
  have len: "vecLenD (DVec3 (Fin 0) (Fin 0) (Fin w)) = Fin l"
    using q q' l q0 by (simp add: vecLenD_def)
  have t2: "near (lit 0.2) (1 / 5) (1 / 1000000000)"
    using lit_near' [of "0.2" "1 / 1000000000"] by simp
  then obtain t2' where t2': "lit 0.2 = Fin t2'" and t2b: "\<bar>t2' - 1 / 5\<bar> \<le> 1 / 1000000000"
    by (rule nearE)
  have "\<not> l < t2'" using lb sq t2b by linarith
  then have nl: "\<not> jlt (Fin l) (lit 0.2)" unfolding t2' by simp
  have cand: "vecSubD (DVec3 (Fin 0) (Fin 0) (Fin (141 / 16)))
        (gCandidateD (gravityD s) (DVec3 (Fin 0) (Fin 0) (Fin (141 / 16))))
      = DVec3 (Fin 0) (Fin 0) (Fin w)"
  proof -
    have x0: "jsub (Fin 0) (jadd (jmul (Fin 0) (jsub (Fin 1) lpfD)) (jmul (Fin 0) lpfD)) = Fin 0"
      unfolding lp om by simp
    show ?thesis
      unfolding g gCandidateD_def vecAddD_def vecScaleD_def vecSubD_def DVec3.sel x0 w ..
  qed
  show "gNewD (gravityD s) (gMeasD (Accel (Some 0) (Some 0) (Some (141 / 16)))) (Fin 0) = gravityD s"
    using nl by (simp add: gNewD_def allowGUpdateD_def gm cand len Let_def)
  have az: "near (jsub (Fin (141 / 16)) (lit 9.81)) (- (399 / 400)) (1 / 10000000)"
    by (rule near_sub' [where M = 16, OF zn gz_near]) simp
  from up_near obtain u where up: "vecNormD (DVec3 (jneg (Fin 0)) (jneg (Fin 0)) (jneg (lit 9.81)))
      = DVec3 (Fin 0) (Fin 0) (Fin u)" and ub: "\<bar>u + 1\<bar> \<le> 1 / 1000000" by blast
  have un: "near (Fin u) (- 1) (1 / 1000000)" using ub by simp
  have pr: "near (jmul (jsub (Fin (141 / 16)) (lit 9.81)) (Fin u)) (399 / 400) (1 / 100000)"
    by (rule near_mul' [where M = 16, OF az un]) simp
  have z0: "near (Fin 0) 0 0" by simp
  have "near (jadd (Fin 0) (jmul (jsub (Fin (141 / 16)) (lit 9.81)) (Fin u))) (399 / 400) (2 / 100000)"
    by (rule near_add' [where M = 16, OF z0 pr]) simp
  then obtain v where v: "jadd (Fin 0) (jmul (jsub (Fin (141 / 16)) (lit 9.81)) (Fin u)) = Fin v"
    and vb: "\<bar>v - 399 / 400\<bar> \<le> 2 / 100000" by (rule nearE)
  have av: "aVertD (DVec3 (Fin 0) (Fin 0) (Fin (141 / 16))) (gravityD s) = Fin v"
  proof -
    have x0: "jadd (jmul (jsub (Fin 0) (Fin 0)) (Fin 0)) (jmul (jsub (Fin 0) (Fin 0)) (Fin 0)) = Fin 0"
      by simp
    show ?thesis
      unfolding aVertD_def g vecSubD_def vecDotD_def Let_def DVec3.sel up x0 v ..
  qed
  have vn: "near (Fin v) (399 / 400) (2 / 100000)" using vb by simp
  have hundred: "near (Fin 100) 100 0" by simp
  have "near (jmul (Fin v) (Fin 100)) (399 / 4) (1 / 100)"
    by (rule near_mul' [where M = 128, OF vn hundred]) simp
  then show "near (jmul (aVertD (gMeasD (Accel (Some 0) (Some 0) (Some (141 / 16)))) (gravityD s)) (Fin 100))
           (399 / 4) (1 / 100)"
    unfolding gm av .
  have q3: "near (lit 0.03) (3 / 100) (1 / 1000000000)"
    using lit_near' [of "0.03" "1 / 1000000000"] by simp
  then obtain q3' where q3': "lit 0.03 = Fin q3'" and q3b: "\<bar>q3' - 3 / 100\<bar> \<le> 1 / 1000000000"
    by (rule nearE)
  have "\<not> \<bar>v\<bar> < q3'" using vb q3b by linarith
  then have "\<not> jlt (jabs (Fin v)) (lit 0.03)" unfolding q3' by simp
  then show "\<not> stationaryD (gMeasD (Accel (Some 0) (Some 0) (Some (141 / 16)))) (gravityD s) (Fin 0)"
    by (simp add: stationaryD_def gm av Let_def)
qed

lemma integrate_push:
  assumes "velocityD s = Fin 0" and "displacementD s = Fin 0" and "peakDisplacementD s = Fin 0"
    and a: "near a (399 / 4) (1 / 100)" and t: "near dt (1 / 20) (1 / 1000000000)"
  shows "near (peakDisplacementD (integrateD False a dt s)) (24925 / 100000) (3 / 10000)"
proof -
  from a obtain x where x: "a = Fin x" by (rule nearE)
  from t obtain y where y: "dt = Fin y" and yb: "\<bar>y - 1 / 20\<bar> \<le> 1 / 1000000000" by (rule nearE)
  have z0: "near (Fin 0) 0 0" by simp
  have m: "near (jmul a dt) (399 / 80) (1 / 1000)"
    by (rule near_mul' [where M = 16, OF a t]) simp
  have v1: "near (jadd (Fin 0) (jmul a dt)) (399 / 80) (2 / 1000)"
    by (rule near_add' [where M = 16, OF z0 m]) simp
  have dm: "near (lit 0.9995) (9995 / 10000) (1 / 1000000000)"
    using lit_near' [of "0.9995" "1 / 1000000000"] by simp
  have "near (jmul (jadd (Fin 0) (jmul a dt)) (lit 0.9995)) (4985 / 1000) (3 / 1000)"
    by (rule near_mul' [where M = 16, OF v1 dm]) simp
  then obtain v2 where v2: "jmul (jadd (Fin 0) (jmul a dt)) (lit 0.9995) = Fin v2"
    and vb: "\<bar>v2 - 4985 / 1000\<bar> \<le> 3 / 1000" by (rule nearE)
  have vn: "near (Fin v2) (4985 / 1000) (3 / 1000)" using vb by simp
  have tn: "near (Fin y) (1 / 20) (1 / 1000000000)" using yb by simp
  have dd: "near (jmul (Fin v2) (Fin y)) (24925 / 100000) (2 / 10000)"
    by (rule near_mul' [where M = 16, OF vn tn]) simp
  have "near (jadd (Fin 0) (jmul (Fin v2) (Fin y))) (24925 / 100000) (3 / 10000)"
    by (rule near_add' [where M = 16, OF z0 dd]) simp
  then obtain d where d: "jadd (Fin 0) (jmul (Fin v2) (Fin y)) = Fin d"
    and db: "\<bar>d - 24925 / 100000\<bar> \<le> 3 / 10000" by (rule nearE)
  have v2pos: "0 < v2" "\<not> v2 < 0" using vb by linarith+
  have dpos: "0 < d" "\<not> d < 0" "\<not> 300 < d" using db by linarith+
  have vmax: "jmax (Fin 0) (Fin v2) = Fin v2" using v2pos by simp
  have dmax: "jmax (Fin 0) (Fin d) = Fin d" using dpos by simp
  have "peakDisplacementD (integrateD False a dt s) = Fin d"
    unfolding integrateD_def Let_def assms(1,2,3)
    using v2 [unfolded y] vmax d dmax dpos by (simp add: y)
  then show ?thesis using db by simp
qed

lemma down_first:
  "peakDisplacementD (onMotionD (zSample hugeAccel (Some 50) 0) measuringD) = Fin 0"
proof -
  from huge_sample [OF measuringD_fields(1) hugeAccel_abs(2), of 0] hugeAccel_pos
  obtain t where t: "0 < t"
    and e: "onMotionD (zSample hugeAccel (Some 50) 0) measuringD =
      reportD False (integrateD False NInf (Fin t)
        (measuringD\<lparr>lastTimestampD := Fin 0, gravityD := gravityD measuringD\<rparr>))"
    by auto
  let ?s = "measuringD\<lparr>lastTimestampD := Fin 0, gravityD := gravityD measuringD\<rparr>"
  have s: "velocityD ?s = Fin 0" "displacementD ?s = Fin 0" "peakDisplacementD ?s = Fin 0"
    by (simp_all add: measuringD_fields)
  show ?thesis unfolding e reportD_frame by (rule integrate_down [OF s t])
qed

lemma push_first:
  "\<not> sampleStationaryD measuringD (Accel (Some 0) (Some 0) (Some (141 / 16))) pushSample"
  "near (peakDisplacementD (onMotionD pushSample measuringD)) (24925 / 100000) (3 / 10000)"
proof -
  let ?ag = "Accel (Some 0) (Some 0) (Some (141 / 16))"
  note c = push_chain [OF measuringD_fields(1)]
  have rot: "rotMagD (rotationRate pushSample) = Fin 0"
    by (simp add: pushSample_def zSample_def rotMagD_def)
  have sg: "sampleGravityD measuringD ?ag pushSample = gravityD measuringD"
    unfolding sampleGravityD_def rot by (rule c)
  show ns: "\<not> sampleStationaryD measuringD ?ag pushSample"
    unfolding sampleStationaryD_def sg rot by (rule c)
  have a: "accelerationIncludingGravity pushSample = Some ?ag"
    by (simp add: pushSample_def zSample_def)
  let ?s = "measuringD\<lparr>lastTimestampD := Fin (tsNow pushSample), gravityD := gravityD measuringD\<rparr>"
  have s: "velocityD ?s = Fin 0" "displacementD ?s = Fin 0" "peakDisplacementD ?s = Fin 0"
    by (simp_all add: measuringD_fields)
  have dt: "near (clampDtD (rawDtD measuringD pushSample)) (1 / 20) (1 / 1000000000)"
    unfolding pushSample_def by (rule dt_near)
  have "peakDisplacementD (onMotionD pushSample measuringD)
      = peakDisplacementD (integrateD False
          (jmul (aVertD (gMeasD ?ag) (gravityD measuringD)) (Fin 100))
          (clampDtD (rawDtD measuringD pushSample)) ?s)"
    unfolding onMotionD_accel [OF a] reportD_frame sg using ns by simp
  then show "near (peakDisplacementD (onMotionD pushSample measuringD)) (24925 / 100000) (3 / 10000)"
    using integrate_push [OF s c(2) dt] by simp
qed

lemma tenth_exact:
  assumes "jdiv (jround (jmul (Fin x) (Fin 10))) (Fin 10) = Fin y" and "0 \<le> x" and "x \<le> 400"
    and "real_of_int k - 499 / 1000 \<le> x * 10" and "x * 10 \<le> real_of_int k + 499 / 1000"
  shows "Fin y = ofReal (of_int k / 10)"
proof -
  from round_tenth [OF assms(2,3)] obtain j where
    j: "jdiv (jround (jmul (Fin x) (Fin 10))) (Fin 10) = ofReal (of_int j / 10)"
    and jb: "\<bar>of_int j - x * 10\<bar> \<le> 1 / 2 + 1 / 274877906944" by blast
  have "\<bar>real_of_int j - real_of_int k\<bar> < 1" using jb assms(4,5) by linarith
  then have "\<bar>real_of_int (j - k)\<bar> < 1" by simp
  then have "\<bar>j - k\<bar> < 1" by linarith
  then have "j = k" by simp
  then show ?thesis using j assms(1) by simp
qed

text \<open>Exact values: the readout at the reported height 194.\<close>

lemma rne_step:
  assumes "2 powi e \<le> \<bar>x\<bar>" and "\<bar>x\<bar> < 2 powi (e + 1)" and "- 1022 \<le> e" and "e \<le> 1024"
    and "\<bar>of_int k - x / 2 powi (e - 52)\<bar> < 1 / 2"
  shows "rne x = of_int k * 2 powi (e - 52)"
proof -
  define y where "y = x / 2 powi (e - 52)"
  have "\<bar>of_int (roundEven y) - y\<bar> \<le> 1 / 2" by (rule roundEven_near)
  moreover have "\<bar>of_int k - y\<bar> < 1 / 2" using assms(5) by (simp add: y_def)
  ultimately have "\<bar>real_of_int (roundEven y) - real_of_int k\<bar> < 1" by linarith
  then have "\<bar>real_of_int (roundEven y - k)\<bar> < 1" by simp
  then have "\<bar>roundEven y - k\<bar> < 1" by linarith
  then have "roundEven y = k" by simp
  then show ?thesis unfolding rne_eval [OF assms(1,2,3,4)] y_def by simp
qed

lemma rne_tie:
  assumes "2 powi e \<le> \<bar>x\<bar>" and "\<bar>x\<bar> < 2 powi (e + 1)" and "- 1022 \<le> e" and "e \<le> 1024"
    and "x / 2 powi (e - 52) = of_int f + 1 / 2" and "even f"
  shows "rne x = of_int f * 2 powi (e - 52)"
proof -
  have "roundEven (of_int f + 1 / 2) = f"
    using assms(6) by (simp add: roundEven_def Let_def)
  then show ?thesis unfolding rne_eval [OF assms(1,2,3,4)] assms(5) by simp
qed

lemma confD_194:
  "confD (Fin 194) False = Fin (6611143515491532 / 2 ^ 46)"
  "confD (Fin 194) True = Fin (6822249748024524 / 2 ^ 46)"
proof -
  define t1 :: real where "t1 = 8736983277098762 / 2 ^ 53"
  define t2 :: real where "t2 = 4778037729663385 / 2 ^ 47"
  define s1 :: real where "s1 = 6611143515491532 / 2 ^ 46"
  define s3 :: real where "s3 = 6822249748024524 / 2 ^ 46"
  have "rne (194 / 200) = t1"
    unfolding t1_def using rne_step [of "- 1" "194 / 200" 8736983277098762]
    by (simp add: power_int_minus)
  then have q: "jdiv (Fin 194) (Fin 200) = Fin t1" by (simp add: ofReal_def t1_def)
  have "rne (t1 * 35) = t2"
    unfolding t1_def t2_def using rne_step [of 5 "8736983277098762 / 2 ^ 53 * 35" 4778037729663385]
    by (simp add: power_int_minus)
  then have m: "jmul (Fin t1) (Fin 35) = Fin t2" by (simp add: ofReal_def t2_def)
  have m35: "jmin (Fin 35) (Fin t2) = Fin t2" by (simp add: t2_def)
  have "rne (60 + t2) = s1"
    unfolding t2_def s1_def using rne_tie [of 6 "60 + 4778037729663385 / 2 ^ 47" 6611143515491532]
    by (simp add: power_int_minus)
  then have a: "jadd (Fin 60) (Fin t2) = Fin s1" by (simp add: ofReal_def s1_def)
  have m95: "jmin (Fin 95) (Fin s1) = Fin s1" by (simp add: s1_def)
  have "rne (s1 + 3) = s3"
    unfolding s1_def s3_def using rne_step [of 6 "6611143515491532 / 2 ^ 46 + 3" 6822249748024524]
    by (simp add: power_int_minus)
  then have b: "jadd (Fin s1) (Fin 3) = Fin s3" by (simp add: ofReal_def s3_def)
  have m99: "jmin (Fin (199 / 2)) (Fin s3) = Fin s3" by (simp add: s3_def)
  show "confD (Fin 194) False = Fin (6611143515491532 / 2 ^ 46)"
    unfolding confD_def Let_def q m m35 a m95 s1_def [symmetric] by simp
  show "confD (Fin 194) True = Fin (6822249748024524 / 2 ^ 46)"
    unfolding confD_def Let_def q m m35 a m95 b m99 s3_def [symmetric] by simp
qed

lemma tenfold_194:
  "jdiv (jround (jmul (Fin (6611143515491532 / 2 ^ 46)) (Fin 10))) (Fin 10) = lit 93.9"
  "jdiv (jround (jmul (Fin (6822249748024524 / 2 ^ 46)) (Fin 10))) (Fin 10) = lit 96.9"
proof -
  have "rne (6611143515491532 / 2 ^ 46 * 10) = 8263929394364415 / 2 ^ 43"
    using rne_step [of 9 "6611143515491532 / 2 ^ 46 * 10" 8263929394364415]
    by (simp add: power_int_minus)
  then have 1: "jmul (Fin (6611143515491532 / 2 ^ 46)) (Fin 10) = Fin (8263929394364415 / 2 ^ 43)"
    by (simp add: ofReal_def)
  have f1: "\<lfloor>8263929394364415 / 2 ^ 43 + 1 / 2 :: real\<rfloor> = 939" by simp
  show "jdiv (jround (jmul (Fin (6611143515491532 / 2 ^ 46)) (Fin 10))) (Fin 10) = lit 93.9"
    unfolding 1 jround.simps f1 by (simp add: lit_def)
  have "rne (6822249748024524 / 2 ^ 46 * 10) = 8527812185030655 / 2 ^ 43"
    using rne_step [of 9 "6822249748024524 / 2 ^ 46 * 10" 8527812185030655]
    by (simp add: power_int_minus)
  then have 2: "jmul (Fin (6822249748024524 / 2 ^ 46)) (Fin 10) = Fin (8527812185030655 / 2 ^ 43)"
    by (simp add: ofReal_def)
  have f2: "\<lfloor>8527812185030655 / 2 ^ 43 + 1 / 2 :: real\<rfloor> = 969" by simp
  show "jdiv (jround (jmul (Fin (6822249748024524 / 2 ^ 46)) (Fin 10))) (Fin 10) = lit 96.9"
    unfolding 2 jround.simps f2 by (simp add: lit_def)
qed

lemma height_194: "jdiv (jround (jmul (Fin 194) (Fin 10))) (Fin 10) = Fin 194"
proof -
  have "ofReal (of_int 1940) = Fin (of_int 1940)" by (rule ofReal_int) simp
  moreover have "ofReal (of_int 194) = Fin (of_int 194)" by (rule ofReal_int) simp
  ultimately show ?thesis by simp
qed

lemma reportD_194:
  assumes "peakDisplacementD s = Fin 194"
  shows "heightCmD (reportD st s) = Fin 194"
    and "confidenceD (reportD False s) = lit 93.9"
    and "confidenceD (reportD True s) = lit 96.9"
    and "jsRound (specConfidence 194 False * 10) / 10 = 94"
    and "jsRound (specConfidence 194 True * 10) / 10 = 97"
proof -
  have cm: "cmD (toFeetInchesD (Fin 194)) = Fin 194"
    unfolding toFeetInchesD_def Let_def FeetInchesD.simps height_194 ..
  show "heightCmD (reportD st s) = Fin 194"
    unfolding reportD_def Let_def assms height_194 cm by simp
  show "confidenceD (reportD False s) = lit 93.9"
    unfolding reportD_def Let_def assms height_194 cm confD_194 tenfold_194 by simp
  show "confidenceD (reportD True s) = lit 96.9"
    unfolding reportD_def Let_def assms height_194 cm confD_194 tenfold_194 by simp
  show "jsRound (specConfidence 194 False * 10) / 10 = 94"
    by (simp add: specConfidence_def jsRound_def)
  show "jsRound (specConfidence 194 True * 10) / 10 = 97"
    by (simp add: specConfidence_def jsRound_def)
qed

section \<open>Properties of the engine\<close>
subsection \<open>Bounds of displacement and peak\<close>

text \<open>
  Claim C1 fails in the code. The update clamps with \<open>if (d < 0)\<close> and \<open>if (d > 300)\<close> and
  takes \<open>Math.max\<close>; a comparison with \<open>NaN\<close> is false and \<open>Math.max\<close> of \<open>NaN\<close> is \<open>NaN\<close>, so
  a velocity that is \<open>NaN\<close> passes every clamp, under the comment \<open>Clamp to realistic
  human range\<close>. On a flat device a sample of \<open>- 2 ^ 1020\<close> along z takes the velocity to plus
  infinity, with displacement and peak clamped to 300; the next sample, of \<open>2 ^ 1020\<close>,
  adds minus infinity to it. The velocity is then \<open>NaN\<close>, and so are displacement and
  peak: neither is at least 0, neither is at most 300, and the peak is not at least the
  displacement. In exact arithmetic the bounds hold after every sample (lemma
  \<open>onMotion_bounds\<close>).
\<close>

theorem bounds_lost_after_overflow:
  "displacementD (feedD measuringD overflowRun) = NaN \<and>
   peakDisplacementD (feedD measuringD overflowRun) = NaN \<and>
   \<not> jle (Fin 0) (displacementD (feedD measuringD overflowRun)) \<and>
   \<not> jle (displacementD (feedD measuringD overflowRun)) (Fin 300) \<and>
   \<not> jle (Fin 0) (peakDisplacementD (feedD measuringD overflowRun)) \<and>
   \<not> jle (peakDisplacementD (feedD measuringD overflowRun)) (Fin 300) \<and>
   \<not> jle (displacementD (feedD measuringD overflowRun))
          (peakDisplacementD (feedD measuringD overflowRun))"
  by (simp add: overflow_second)

subsection \<open>Gravity freeze\<close>



subsection \<open>Monotonic peak\<close>

text \<open>
  Claim C8 fails in the code, through the same \<open>NaN\<close> as C1: after the first sample of the
  overflow run the peak is 300, after the second it is \<open>NaN\<close>, and \<open>300 <= NaN\<close> is false.
  In exact arithmetic the peak never decreases (lemma \<open>onMotion_peak_mono\<close>).
\<close>

theorem peak_lost_after_overflow:
  "peakDisplacementD (feedD measuringD (take 1 overflowRun)) = Fin 300 \<and>
   peakDisplacementD (feedD measuringD overflowRun) = NaN \<and>
   \<not> jle (peakDisplacementD (feedD measuringD (take 1 overflowRun)))
          (peakDisplacementD (feedD measuringD overflowRun))"
  by (simp add: overflow_second) (simp add: feedD_def overflowRun_def overflow_first)

subsection \<open>Displacement never retreats\<close>

text \<open>
  Claim C10 fails in the code, through the same \<open>NaN\<close> as C1: the second sample of the
  overflow run takes the displacement from 300 to \<open>NaN\<close>, so the displacement after it is
  not at least the one before it, and the peak does not equal the displacement, both
  being \<open>NaN\<close>. In exact arithmetic the two stay equal and the displacement never
  decreases (lemma \<open>onMotion_settled\<close>).
\<close>

theorem displacement_lost_after_overflow:
  "displacementD (feedD measuringD (take 1 overflowRun)) = Fin 300 \<and>
   displacementD (feedD measuringD overflowRun) = NaN \<and>
   \<not> jle (displacementD (feedD measuringD (take 1 overflowRun)))
          (displacementD (feedD measuringD overflowRun)) \<and>
   \<not> jeq (peakDisplacementD (feedD measuringD overflowRun))
          (displacementD (feedD measuringD overflowRun))"
  by (simp add: overflow_second) (simp add: feedD_def overflowRun_def overflow_first)

subsection \<open>Starting a measurement\<close>

text \<open>
  Claim C6. Without a calibration \<open>startMeasurement\<close> only sets the error
  \<open>Please calibrate first\<close> and changes nothing else. With one it clears the error and
  leaves velocity, displacement, peak and the stationary counter at zero; the same holds
  when it is called again after a measurement was fed samples and stopped.
\<close>

theorem startMeasurement_contract:
  "(\<not> hasCalibratedRef s \<longrightarrow>
      startMeasurement s = s\<lparr>error := Some ''Please calibrate first''\<rparr>) \<and>
   (hasCalibratedRef s \<longrightarrow>
      integratorZero (startMeasurement s) \<and> error (startMeasurement s) = None \<and>
      isMeasuring (measurementState (startMeasurement s))) \<and>
   (hasCalibratedRef s \<longrightarrow>
      integratorZero (startMeasurement (stopMeasurement (feed (startMeasurement s) es))) \<and>
      error (startMeasurement (stopMeasurement (feed (startMeasurement s) es))) = None \<and>
      isMeasuring (measurementState
        (startMeasurement (stopMeasurement (feed (startMeasurement s) es)))))"
proof (intro conjI impI)
  assume "\<not> hasCalibratedRef s"
  then show "startMeasurement s = s\<lparr>error := Some ''Please calibrate first''\<rparr>"
    by (simp add: startMeasurement_def)
next
  assume c: "hasCalibratedRef s"
  show "integratorZero (startMeasurement s)" "error (startMeasurement s) = None"
    "isMeasuring (measurementState (startMeasurement s))"
    using start_resets [OF c] by simp_all
  have "hasCalibratedRef (stopMeasurement (feed (startMeasurement s) es))"
    using start_resets [OF c] by (simp add: stop_calibrated feed_calibrated)
  from start_resets [OF this]
  show "integratorZero (startMeasurement (stopMeasurement (feed (startMeasurement s) es)))"
    "error (startMeasurement (stopMeasurement (feed (startMeasurement s) es))) = None"
    "isMeasuring (measurementState
        (startMeasurement (stopMeasurement (feed (startMeasurement s) es))))"
    by simp_all
qed

theorem startMeasurement_contract_witness:
  "\<not> hasCalibratedRef initialEngine \<and>
   startMeasurement initialEngine = initialEngine\<lparr>error := Some ''Please calibrate first''\<rparr> \<and>
   hasCalibratedRef measuringEngine \<and>
   integratorZero (startMeasurement (stopMeasurement
     (feed (startMeasurement measuringEngine) [zSample (881 / 100) (Some 50) 0])))"
proof -
  have i: "\<not> hasCalibratedRef initialEngine" by (simp add: initialEngine_def)
  have m: "hasCalibratedRef measuringEngine" by (rule measuringEngine_fields)
  show ?thesis
    using i m startMeasurement_contract [of initialEngine "[]"]
      startMeasurement_contract [of measuringEngine "[zSample (881 / 100) (Some 50) 0]"]
    by simp
qed

subsection \<open>Calibration\<close>



subsection \<open>Zero-velocity update\<close>

text \<open>
  Claim C2 fails in the code. The comments of the update announce a test on the
  stationary time (\<open>duration gate\<close>, \<open>Zero velocity update if stationary for ~500ms\<close>), but
  the code keeps no accumulator of seconds: it counts the stationary samples and
  multiplies the count by the time step of the current sample. Eleven consecutive
  stationary samples lasting 0.505 s, the last one of 5 ms, give \<open>11 * 0.005 < 0.5\<close>, so
  the velocity that the last sample adds is not cleared.
\<close>

theorem zupt_accumulated_time_counterexample:
  "stationarySpan measuringEngine driftingSpan \<and>
   stationaryAccumSeconds 0 measuringEngine driftingSpan = 101 / 200 \<and>
   0.5 \<le> stationaryAccumSeconds 0 measuringEngine driftingSpan \<and>
   velocityRef (feed measuringEngine driftingSpan) = 99 / 10000 \<and>
   velocityRef (feed measuringEngine driftingSpan) \<noteq> 0"
proof -
  let ?flat = "zSample (981 / 100) (Some 50) 0"
  let ?e = "zSample (979 / 100) (Some 5) 0" and ?ag = "Accel (Some 0) (Some 0) (Some (979 / 100))"
  let ?t = "feed measuringEngine (replicate 10 ?flat)"
  have a: "accelerationIncludingGravity ?e = Some ?ag" by (rule zSample_fields)
  have sg: "sampleGravity ?t ?ag ?e = Vec3 0 0 (49049 / 5000)"
    unfolding zSample_gravity [OF flat_ten(1)] by simp
  have st: "sampleStationary ?t ?ag ?e"
    unfolding sampleStationary_def sg zSample_fields by (simp add: z_stationary)
  have dt: "sampleDt ?t ?e = 1 / 200"
    by (simp add: zSample_dt clampDt_def)
  have n: "stationarySamplesRef (onMotion ?e ?t) = 11"
    unfolding onMotion_count [OF a] flat_ten(3) using st by simp
  have av: "aVertOf (gMeasOf ?ag) (sampleGravity ?t ?ag ?e) = 198 / 10000"
    unfolding sg zSample_fields by (simp add: z_aVert)
  have v: "velocityRef (onMotion ?e ?t) = 99 / 10000"
    unfolding onMotion_velocity [OF a] n av dt flat_ten(2) using st by simp
  have span: "stationarySpan measuringEngine driftingSpan"
    unfolding driftingSpan_def span_append using flat_ten(4) [of 10] st
    by (simp add: zSample_fields)
  have "stationaryAccumSeconds 0 measuringEngine driftingSpan
      = stationaryAccumSeconds (0 + real 10 * clampDt (50 / 1000)) ?t [?e]"
    unfolding driftingSpan_def
    by (rule accum_flat [OF _ _ measuring_gravity measuringEngine_fields(2)]) simp_all
  also have "\<dots> = 101 / 200"
    using st dt by (simp add: zSample_fields clampDt_def)
  finally have acc: "stationaryAccumSeconds 0 measuringEngine driftingSpan = 101 / 200" .
  have "feed measuringEngine driftingSpan = onMotion ?e ?t"
    unfolding driftingSpan_def by (rule feed_snoc)
  then show ?thesis using span acc v by simp
qed

subsection \<open>Samples with an implausible time step\<close>




subsection \<open>Confidence\<close>

text \<open>
  Claim C5 as stated fails. The code rounds the peak to one decimal before the formula
  and the result to one decimal after it. On a flat device the push sample, which is
  not stationary, lifts the peak to about 0.24925 cm; the height is reported as 0.2 and
  the confidence as 60, while the formula gives more than 60.04 at the peak and more
  than 60.03 at the reported height, and its value on doubles differs from 60 at both.
\<close>

theorem confidence_exact_formula_counterexample:
  "\<not> sampleStationaryD measuringD (Accel (Some 0) (Some 0) (Some (141 / 16))) pushSample \<and>
   heightCmD (onMotionD pushSample measuringD) = lit 0.2 \<and>
   confidenceD (onMotionD pushSample measuringD) = Fin 60 \<and>
   (\<exists>p. peakDisplacementD (onMotionD pushSample measuringD) = Fin p \<and>
        \<bar>p - 24925 / 100000\<bar> \<le> 3 / 10000 \<and>
        6004 / 100 \<le> specConfidence p False) \<and>
   (\<exists>h. heightCmD (onMotionD pushSample measuringD) = Fin h \<and>
        6003 / 100 \<le> specConfidence h False) \<and>
   \<not> jeq (confidenceD (onMotionD pushSample measuringD))
          (confD (peakDisplacementD (onMotionD pushSample measuringD)) False) \<and>
   \<not> jeq (confidenceD (onMotionD pushSample measuringD))
          (confD (heightCmD (onMotionD pushSample measuringD)) False)"
proof -
  let ?ag = "Accel (Some 0) (Some 0) (Some (141 / 16))"
  let ?t = "onMotionD pushSample measuringD"
  have a: "accelerationIncludingGravity pushSample = Some ?ag"
    by (simp add: pushSample_def zSample_def)
  note ns = push_first(1)
  from push_first(2) obtain p where pk: "peakDisplacementD ?t = Fin p"
    and pb: "\<bar>p - 24925 / 100000\<bar> \<le> 3 / 10000" by (rule nearE)
  from onMotionD_peak [OF a, of measuringD] obtain u
    where u: "?t = reportD (sampleStationaryD measuringD ?ag pushSample) u"
      and up: "peakDisplacementD u = peakDisplacementD ?t" by blast
  have u': "?t = reportD False u" using u ns by simp
  have pu: "peakDisplacementD u = Fin p" using up pk by simp
  have p0: "0 \<le> p" "p \<le> 300" using pb by linarith+
  from reportD_readout [OF pu p0, of False] obtain h c
    where h: "heightCmD ?t = Fin h" and c: "confidenceD ?t = Fin c"
      and he: "Fin h = jdiv (jround (jmul (Fin p) (Fin 10))) (Fin 10)"
      and ce: "Fin c = jdiv (jround (jmul (confD (Fin h) False) (Fin 10))) (Fin 10)"
    unfolding u' [symmetric] by blast
  have "p \<le> 400" "2 - 499 / 1000 \<le> p * 10" "p * 10 \<le> 2 + 499 / 1000"
    using pb by linarith+
  then have r: "p \<le> 400" "real_of_int 2 - 499 / 1000 \<le> p * 10"
    "p * 10 \<le> real_of_int 2 + 499 / 1000" by simp_all
  have "Fin h = ofReal (of_int 2 / 10)"
    by (rule tenth_exact [OF he [symmetric] p0(1) r])
  then have h2: "Fin h = lit 0.2" by (simp add: lit_def)
  have "near (lit 0.2) (1 / 5) (1 / 1000000000)"
    using lit_near' [of "0.2" "1 / 1000000000"] by simp
  then have hb: "\<bar>h - 1 / 5\<bar> \<le> 1 / 1000000000" unfolding h2 [symmetric] by simp
  have h0: "0 \<le> h" "h \<le> 301" using hb by linarith+
  from confD_near [OF h0, of False] obtain cf where cf: "confD (Fin h) False = Fin cf"
    and cfb: "\<bar>cf - specConfidence h False\<bar> \<le> 40 / 274877906944" by blast
  have "min 35 (h * 7 / 40) = h * 7 / 40" "min 95 (60 + h * 7 / 40) = 60 + h * 7 / 40"
    using hb by linarith+
  then have sh: "specConfidence h False = 60 + h * 7 / 40"
    unfolding specConfidence_alt by simp
  have "min 35 (p * 7 / 40) = p * 7 / 40" "min 95 (60 + p * 7 / 40) = 60 + p * 7 / 40"
    using pb by linarith+
  then have sp: "specConfidence p False = 60 + p * 7 / 40"
    unfolding specConfidence_alt by simp
  have "0 \<le> cf" "cf \<le> 400" "600 - 499 / 1000 \<le> cf * 10" "cf * 10 \<le> 600 + 499 / 1000"
    using cfb hb sh by linarith+
  then have r': "0 \<le> cf" "cf \<le> 400" "real_of_int 600 - 499 / 1000 \<le> cf * 10"
    "cf * 10 \<le> real_of_int 600 + 499 / 1000" by simp_all
  have "Fin c = ofReal (of_int 600 / 10)"
    by (rule tenth_exact [OF ce [unfolded cf, symmetric] r'])
  moreover have "ofReal (of_int 60) = Fin (of_int 60)" by (rule ofReal_int) simp
  ultimately have c60: "c = 60" by simp
  from confD_near [OF p0(1), of False] p0(2) obtain cp where cp: "confD (Fin p) False = Fin cp"
    and cpb: "\<bar>cp - specConfidence p False\<bar> \<le> 40 / 274877906944" by auto
  have n1: "c \<noteq> cp" using c60 cpb sp pb by linarith
  have n2: "c \<noteq> cf" using c60 cfb sh hb by linarith
  have s1: "6004 / 100 \<le> specConfidence p False" unfolding sp using pb by linarith
  have s2: "6003 / 100 \<le> specConfidence h False" unfolding sh using hb by linarith
  have j1: "\<not> jeq (confidenceD ?t) (confD (peakDisplacementD ?t) False)"
    unfolding c pk cp using n1 by simp
  have j2: "\<not> jeq (confidenceD ?t) (confD (heightCmD ?t) False)"
    unfolding c h cf using n2 by simp
  have e1: "\<exists>p. peakDisplacementD ?t = Fin p \<and> \<bar>p - 24925 / 100000\<bar> \<le> 3 / 10000 \<and>
        6004 / 100 \<le> specConfidence p False" using pk pb s1 by blast
  have e2: "\<exists>h. heightCmD ?t = Fin h \<and> 6003 / 100 \<le> specConfidence h False"
    using h s2 by blast
  have hh: "heightCmD ?t = lit 0.2" using h h2 by simp
  have cc: "confidenceD ?t = Fin 60" using c c60 by simp
  show ?thesis using ns hh cc e1 e2 j1 j2 by blast
qed

text \<open>
  Claim C5, amended. After a processed sample that leaves a finite peak \<open>p\<close> in
  \<open>[0, 300]\<close>, the reported height is \<open>Math.round(p * 10) / 10\<close>; the reported confidence is
  the formula of the claim, computed on doubles at the reported height and the sample's
  stationary flag, and rounded to one decimal in the same way. The reported height is
  within \<open>0.05 + 1e-9\<close> of the peak; the reported confidence is within \<open>0.05 + 1e-9\<close> of the
  exact formula at the reported height and within 0.06 of it at the peak; and a peak of
  at most 0.2 cm is reported with confidence at most 63. The rounding of the doubles
  shows at the reported height 194, where the code computes \<open>93.94999999999999\<close> and
  publishes 93.9, or 96.9 when stationary, while the exact formula gives the ties 93.95
  and 96.95 (lemma \<open>reportD_194\<close>).
\<close>

theorem confidence_from_reported_height:
  assumes "accelerationIncludingGravity e = Some ag"
    and "peakDisplacementD (onMotionD e s) = Fin p" and "0 \<le> p" and "p \<le> 300"
  shows "\<exists>h c. heightCmD (onMotionD e s) = Fin h \<and> confidenceD (onMotionD e s) = Fin c
           \<and> Fin h = jdiv (jround (jmul (Fin p) (Fin 10))) (Fin 10)
           \<and> Fin c = jdiv (jround (jmul (confD (Fin h) (sampleStationaryD s ag e)) (Fin 10))) (Fin 10)
           \<and> \<bar>h - p\<bar> \<le> 1 / 20 + 1 / 1000000000
           \<and> \<bar>c - specConfidence h (sampleStationaryD s ag e)\<bar> \<le> 1 / 20 + 1 / 1000000000
           \<and> \<bar>c - specConfidence p (sampleStationaryD s ag e)\<bar> \<le> 3 / 50
           \<and> (p \<le> 1 / 5 \<longrightarrow> c \<le> 63)"
proof -
  from onMotionD_peak [OF assms(1), of s] obtain u
    where u: "onMotionD e s = reportD (sampleStationaryD s ag e) u"
      and up: "peakDisplacementD u = peakDisplacementD (onMotionD e s)" by blast
  have pu: "peakDisplacementD u = Fin p" using up assms(2) by simp
  show ?thesis unfolding u by (rule reportD_readout [OF pu assms(3,4)])
qed

theorem confidence_from_reported_height_witness:
  "accelerationIncludingGravity (zSample hugeAccel (Some 50) 0)
     = Some (Accel (Some 0) (Some 0) (Some hugeAccel)) \<and>
   peakDisplacementD (onMotionD (zSample hugeAccel (Some 50) 0) measuringD) = Fin 0 \<and>
   (\<exists>h c. heightCmD (onMotionD (zSample hugeAccel (Some 50) 0) measuringD) = Fin h \<and>
      confidenceD (onMotionD (zSample hugeAccel (Some 50) 0) measuringD) = Fin c \<and>
      \<bar>h\<bar> \<le> 1 / 20 + 1 / 1000000000 \<and> c \<le> 63)"
proof -
  have a: "accelerationIncludingGravity (zSample hugeAccel (Some 50) 0)
     = Some (Accel (Some 0) (Some 0) (Some hugeAccel))" by (simp add: zSample_def)
  have z: "(0::real) \<le> 0" "(0::real) \<le> 300" by simp_all
  show ?thesis
    using a down_first confidence_from_reported_height [OF a down_first z]
    by auto
qed

subsection \<open>Reset\<close>

text \<open>
  Claim C9. Resetting twice gives the state that resetting once gives, from any state:
  no phase flag set, calibration discarded, the integrator at zero and gravity at
  \<open>{0, 0, 9.81}\<close>.
\<close>

theorem reset_idempotent:
  "resetMeasurement (resetMeasurement s) = resetMeasurement s \<and>
   \<not> isCalibrating (measurementState (resetMeasurement s)) \<and>
   \<not> isMeasuring (measurementState (resetMeasurement s)) \<and>
   \<not> isComplete (measurementState (resetMeasurement s)) \<and>
   \<not> hasCalibratedRef (resetMeasurement s) \<and>
   velocityRef (resetMeasurement s) = 0 \<and>
   displacementRef (resetMeasurement s) = 0 \<and>
   peakDisplacementRef (resetMeasurement s) = 0 \<and>
   stationarySamplesRef (resetMeasurement s) = 0 \<and>
   gravityRef (resetMeasurement s) = Vec3 0 0 9.81"
  by (simp add: resetMeasurement_def detach_def zeroReadout_def)

end
